theory Spec2Isabelle
  imports Main "HOL-Library.Sublist" "HOL-Library.Multiset"
begin

section \<open>Failures, responses and the transport\<close>

text \<open>
  A value that JavaScript code throws (or a promise is rejected with) is either an instance
  of \<open>Error\<close>, which carries a \<open>name\<close> and a \<open>message\<close>, or some other value. The
  source tests \<open>error instanceof Error\<close> before it reads either field, so the two cases are
  kept apart.
\<close>

datatype thrown =
    Error string string  \<comment> \<open>\<open>name\<close>, \<open>message\<close>\<close>
  | Other string

type_synonym row = "(string \<times> string) list"

text \<open>
  \<open>ParseraResponse\<close> and \<open>ParseraError\<close> both are \<open>{ data?, message? }\<close> as far as the
  client reads them. \<open>response.json()\<close> either yields such an object or rejects (a body
  that is not JSON), hence the sum in \<open>json\<close>.
\<close>

record reply =
  data :: "row list option"
  message :: "string option"

record response =
  status :: nat
  statusText :: string
  json :: "thrown + reply"

text \<open>\<open>Response.ok\<close> of the Fetch standard: the status is in the range 200 to 299.\<close>

definition ok :: "response \<Rightarrow> bool" where
  "ok r = (200 \<le> status r \<and> status r \<le> 299)"

text \<open>
  What happens to one call of \<open>fetch\<close> that runs under the controller of
  \<open>fetchWithTimeout\<close>: the server answers, the call fails by itself, the timer of
  \<open>setTimeout(() => controller.abort(), timeout)\<close> fires first, or the caller's own signal
  fires first (its listener clears the timer and aborts the same controller).
\<close>

datatype attempt =
    Responds response
  | Rejects thrown
  | TimerFires
  | SignalFires

text \<open>
  An aborted \<open>fetch\<close> rejects with a \<open>DOMException\<close> named \<open>AbortError\<close>, whichever
  source aborted the controller: \<open>controller.abort()\<close> is called without a reason in both
  places. The message text is the platform's; the wrapper replaces the error before anything
  reads it.
\<close>

definition abortError :: thrown where
  "abortError = Error ''AbortError'' ''This operation was aborted''"

fun fetch :: "attempt \<Rightarrow> thrown + response" where
  "fetch (Responds r) = Inr r"
| "fetch (Rejects e) = Inl e"
| "fetch TimerFires = Inl abortError"
| "fetch SignalFires = Inl abortError"

definition timeoutError :: thrown where
  "timeoutError = Error ''TimeoutError'' ''Request timed out''"

fun fetchWithTimeout :: "attempt \<Rightarrow> thrown + response" where
  "fetchWithTimeout a =
     (case fetch a of
        Inr r \<Rightarrow> Inr r
      | Inl (Error nm msg) \<Rightarrow> if nm = ''AbortError'' then Inl timeoutError else Inl (Error nm msg)
      | Inl (Other v) \<Rightarrow> Inl (Other v))"

section \<open>Events and handlers\<close>

text \<open>
  \<open>ExtractOptions\<close>, as far as the client passes it on in the \<open>extract:start\<close> event. The
  signal itself is an object of the platform; only its presence is kept.
\<close>

record request =
  url :: string
  attributes :: row
  proxyCountry :: "string option"
  cookies :: "row list option"
  precisionMode :: "bool option"
  signal :: bool

datatype payload =
    NoPayload
  | RetryCount nat  \<comment> \<open>\<open>{ retryCount }\<close>\<close>
  | Request request
  | Reply reply

text \<open>
  \<open>ParseraEvent\<close> without its \<open>timestamp\<close> (\<open>Date.now()\<close> at the emission, which no
  operation of the client reads back).
\<close>

record event =
  evType :: string
  evData :: payload
  evError :: "thrown option"
  evRetryCount :: "nat option"

text \<open>
  A handler is a function of the event that returns nothing or a promise. Its run is a small
  program: it performs observable effects, it may suspend at an \<open>await\<close> of its own, and
  it ends by returning or by throwing (a rejected promise counts as throwing).
\<close>

datatype proc =
    Return
  | Throw thrown
  | Effect string proc
  | Await proc

fun outcome :: "proc \<Rightarrow> thrown option" where
  "outcome Return = None"
| "outcome (Throw e) = Some e"
| "outcome (Effect l p) = outcome p"
| "outcome (Await p) = outcome p"


text \<open>
  The effects of a run, cut at its suspensions: the first segment is what the handler does
  synchronously when it is called, each later one what it does when it is resumed.
\<close>

fun segments :: "proc \<Rightarrow> string list list" where
  "segments Return = [[]]"
| "segments (Throw e) = [[]]"
| "segments (Effect l p) =
     (case segments p of [] \<Rightarrow> [[l]] | s # ss \<Rightarrow> (l # s) # ss)"
| "segments (Await p) = [] # segments p"



text \<open>
  The members of a \<open>Set\<close> of functions are told apart by reference; \<open>hid\<close> stands for the
  reference. A \<open>Set\<close> iterates in insertion order and \<open>add\<close> of a member changes nothing.
\<close>

record handler =
  hid :: nat
  fn :: "event \<Rightarrow> proc"

definition add :: "handler \<Rightarrow> handler list \<Rightarrow> handler list" where
  "add h hs = (if hid h \<in> set (map hid hs) then hs else hs @ [h])"

record eventOptions =
  async :: bool
  catchErrors :: bool

text \<open>\<open>ParseraEventOptions\<close> as a caller passes it: both fields may be left out.\<close>

record eventOptionsArg =
  asyncArg :: "bool option"
  catchErrorsArg :: "bool option"

record retryOptions =
  maxRetries :: int
  backoffFactor :: int
  initialDelay :: int

text \<open>
  The fields of a \<open>Parsera\<close> instance that retrying and event delivery read. The numbers of
  the retry policy are JavaScript numbers; they are taken to be integers here.
\<close>

record parsera =
  retryOptions :: retryOptions
  eventHandlers :: "string \<rightharpoonup> handler list"
  eventOptions :: "string \<rightharpoonup> eventOptions"

definition on :: "parsera \<Rightarrow> string \<Rightarrow> handler \<Rightarrow> eventOptionsArg \<Rightarrow> parsera" where
  "on p eventType h opts =
     p\<lparr>eventHandlers := (eventHandlers p)
          (eventType \<mapsto> add h (case eventHandlers p eventType of None \<Rightarrow> [] | Some hs \<Rightarrow> hs)),
       eventOptions := (eventOptions p)
          (eventType \<mapsto> \<lparr>async = (case asyncArg opts of None \<Rightarrow> False | Some b \<Rightarrow> b),
                          catchErrors = (case catchErrorsArg opts of None \<Rightarrow> True | Some b \<Rightarrow> b)\<rparr>)\<rparr>"

section \<open>Delivery of one event\<close>

text \<open>
  What a delivery does, in the order in which it happens: a handler performs an effect, or
  the bus emits \<open>handler:error\<close> for a handler that failed.
\<close>

datatype heard =
    Did nat string
  | Reemit event

text \<open>
  A run in progress: its effects by turn, and how it ends. \<open>Promise.all\<close> over
  \<open>handlers.map(handleEvent)\<close> calls every handler before it awaits anything, so all first
  segments happen in registration order; after that the suspended runs are resumed in turn.
  The model resumes them round-robin, one segment of each per round.
\<close>

type_synonym run = "heard list list \<times> thrown option"

definition rounds :: "'a list list list \<Rightarrow> 'a list list" where
  "rounds xss = map concat (transpose xss)"

text \<open>
  \<open>Promise.all\<close> rejects with the first rejection. A run fails in its last round; among
  runs that fail in the same round the one registered first fails first. What the other
  runs do after that round is not recorded, although in the source they go on and may do
  some of it before the caller of \<open>emit\<close> sees the rejection.
\<close>

fun earliest :: "run list \<Rightarrow> (nat \<times> thrown) option" where
  "earliest [] = None"
| "earliest ((ss, None) # rs) = earliest rs"
| "earliest ((ss, Some e) # rs) =
     (case earliest rs of
        None \<Rightarrow> Some (length ss, e)
      | Some (k, e') \<Rightarrow> if length ss \<le> k then Some (length ss, e) else Some (k, e'))"

definition awaitAll :: "run list \<Rightarrow> run" where
  "awaitAll rs =
     (case earliest rs of
        None \<Rightarrow> (rounds (map fst rs), None)
      | Some (k, e) \<Rightarrow> (take k (rounds (map fst rs)), Some e))"

text \<open>
  The run of \<open>handleEvent\<close>'s catch block continues the turn in which the handler failed:
  \<open>xs\<close> and the first segment of \<open>ts\<close> join the last segment of \<open>ss\<close>.
\<close>

fun resume :: "'a list list \<Rightarrow> 'a list \<Rightarrow> 'a list list \<Rightarrow> 'a list list" where
  "resume [] xs [] = [xs]"
| "resume [] xs (t # ts) = (xs @ t) # ts"
| "resume [s] xs [] = [s @ xs]"
| "resume [s] xs (t # ts) = (s @ xs @ t) # ts"
| "resume (s # s' # ss) xs ts = s # resume (s' # ss) xs ts"

definition handlerError :: "thrown \<Rightarrow> event" where
  "handlerError e =
     \<lparr>evType = ''handler:error'', evData = NoPayload, evError = Some e, evRetryCount = None\<rparr>"

text \<open>
  \<open>handleEvent\<close> of \<open>emit\<close>; \<open>reemit\<close> stands for the nested call
  \<open>this.emit("handler:error", undefined, error)\<close>, which may not return (\<open>None\<close>).
\<close>

definition handleEvent ::
  "(event \<Rightarrow> run option) \<Rightarrow> eventOptions \<Rightarrow> event \<Rightarrow> handler \<Rightarrow> run option" where
  "handleEvent reemit opts ev h =
     (let ss = map (map (Did (hid h))) (segments (fn h ev)) in
      case outcome (fn h ev) of
        None \<Rightarrow> Some (ss, None)
      | Some e \<Rightarrow>
          if \<not> catchErrors opts then Some (ss, Some e)
          else (case reemit (handlerError e) of
                  None \<Rightarrow> None
                | Some (ts, r) \<Rightarrow> Some (resume ss [Reemit (handlerError e)] ts, r)))"

text \<open>\<open>this.eventOptions.get(eventType) ?? { async: false, catchErrors: true }\<close>.\<close>

definition optionsFor :: "parsera \<Rightarrow> string \<Rightarrow> eventOptions" where
  "optionsFor p eventType =
     (case eventOptions p eventType of
        None \<Rightarrow> \<lparr>async = False, catchErrors = True\<rparr>
      | Some opts \<Rightarrow> opts)"

definition started :: "run \<Rightarrow> heard list" where
  "started r = (case fst r of [] \<Rightarrow> [] | s # ss \<Rightarrow> s)"

text \<open>
  The body of \<open>emit\<close>. With \<open>async\<close> set the handlers are called in order and left alone:
  \<open>emit\<close> returns after their first segments, and \<open>.catch(() => {})\<close> drops their failures.
  Otherwise \<open>emit\<close> awaits \<open>Promise.all\<close>. Effects that take place after \<open>emit\<close> has
  returned (of handlers left running) are not recorded. A nested emission that does not
  return makes the whole delivery \<open>None\<close>, also with \<open>async\<close> set, where the source would
  return without waiting for it.
\<close>

definition deliver :: "(event \<Rightarrow> run option) \<Rightarrow> parsera \<Rightarrow> event \<Rightarrow> run option" where
  "deliver reemit p ev =
     (case eventHandlers p (evType ev) of
        None \<Rightarrow> Some ([[]], None)
      | Some hs \<Rightarrow>
          if hs = [] then Some ([[]], None)
          else
            let opts = optionsFor p (evType ev)
            in (case those (map (handleEvent reemit opts ev) hs) of
                  None \<Rightarrow> None
                | Some rs \<Rightarrow>
                    if async opts then Some ([concat (map started rs)], None)
                    else Some (awaitAll rs)))"

text \<open>
  \<open>emit\<close> calls itself for \<open>handler:error\<close>, and a handler of \<open>handler:error\<close> that fails
  makes it do so again, without bound. The first argument bounds the nesting; \<open>None\<close> says
  that the bound was not enough. A chain that never ends is \<open>None\<close> for every bound; the
  source then overflows its stack or never settles.
\<close>

fun emitRun :: "nat \<Rightarrow> parsera \<Rightarrow> event \<Rightarrow> run option" where
  "emitRun 0 p ev = deliver (\<lambda>_. None) p ev"
| "emitRun (Suc n) p ev = deliver (emitRun n p) p ev"

section \<open>Operations of the client\<close>

text \<open>
  What an operation of the client does, in order: a call of \<open>emit\<close> (with what its delivery
  did before it returned), the wait of \<open>enforceRateLimit\<close>, a call of the transport (the
  number counts the calls of this extraction from 0) and a \<open>setTimeout\<close> wait of so many
  milliseconds before a retry. \<open>enforceRateLimit\<close> reads the clock, may sleep and stores the
  time; it cannot fail and emits nothing, so it is one action here.
\<close>

datatype action =
    Emit event "heard list"
  | Throttle
  | Fetch nat
  | Sleep int

text \<open>
  An awaited operation either never settles (\<open>None\<close>), or it has performed some actions and
  is fulfilled with a value (\<open>Inr\<close>) or rejected with a thrown value (\<open>Inl\<close>).
\<close>

type_synonym 'a comp = "((thrown + 'a) \<times> action list) option"

definition ret :: "'a \<Rightarrow> 'a comp" where
  "ret x = Some (Inr x, [])"

definition throw :: "thrown \<Rightarrow> 'a comp" where
  "throw e = Some (Inl e, [])"

definition act :: "action \<Rightarrow> unit comp" where
  "act a = Some (Inr (), [a])"

text \<open>\<open>const x = await m; f(x)\<close>: a rejection of \<open>m\<close> skips \<open>f\<close>.\<close>

definition andThen :: "'a comp \<Rightarrow> ('a \<Rightarrow> 'b comp) \<Rightarrow> 'b comp" where
  "andThen m f =
     (case m of
        None \<Rightarrow> None
      | Some (Inl e, t) \<Rightarrow> Some (Inl e, t)
      | Some (Inr x, t) \<Rightarrow>
          (case f x of None \<Rightarrow> None | Some (r, t') \<Rightarrow> Some (r, t @ t')))"

text \<open>\<open>try { m } catch (error) { f(error) }\<close>.\<close>

definition catch :: "'a comp \<Rightarrow> (thrown \<Rightarrow> 'a comp) \<Rightarrow> 'a comp" where
  "catch m f =
     (case m of
        None \<Rightarrow> None
      | Some (Inr x, t) \<Rightarrow> Some (Inr x, t)
      | Some (Inl e, t) \<Rightarrow>
          (case f e of None \<Rightarrow> None | Some (r, t') \<Rightarrow> Some (r, t @ t')))"

definition emit ::
  "nat \<Rightarrow> parsera \<Rightarrow> string \<Rightarrow> payload \<Rightarrow> thrown option \<Rightarrow> nat option \<Rightarrow> unit comp" where
  "emit n p eventType d err retryCount =
     (let ev = \<lparr>evType = eventType, evData = d, evError = err, evRetryCount = retryCount\<rparr> in
      case emitRun n p ev of
        None \<Rightarrow> None
      | Some (ss, None) \<Rightarrow> Some (Inr (), [Emit ev (concat ss)])
      | Some (ss, Some e) \<Rightarrow> Some (Inl e, [Emit ev (concat ss)]))"

text \<open>\<open>String.prototype.includes\<close>: \<open>m\<close> occurs in \<open>s\<close> as a contiguous part.\<close>

fun includes_str :: "string \<Rightarrow> string \<Rightarrow> bool" where
  "includes_str [] m = (m = [])"
| "includes_str (c # cs) m = (prefix m (c # cs) \<or> includes_str cs m)"

fun isRetryableError :: "thrown \<Rightarrow> bool" where
  "isRetryableError (Error nm msg) =
     (includes_str msg ''network'' \<or> includes_str msg ''timeout'' \<or> includes_str msg ''ECONNRESET'')"
| "isRetryableError (Other v) = False"

text \<open>
  The delay before a retry, in exact integers; the source computes it in double precision,
  which agrees as long as the product stays below \<open>2 ^ 53\<close>.
\<close>

definition backoff :: "parsera \<Rightarrow> nat \<Rightarrow> int" where
  "backoff p retryCount =
     initialDelay (retryOptions p) * backoffFactor (retryOptions p) ^ retryCount"

text \<open>
  \<open>requestFn\<close> of \<open>extract\<close> is one call of \<open>fetchWithTimeout\<close>. Every invocation of
  \<open>retryableRequest\<close> calls it once, so the call made at \<open>retryCount = k\<close> is call number
  \<open>k\<close> of the extraction; \<open>transport k\<close> says what happens to that call.
\<close>

definition requestFn :: "(nat \<Rightarrow> attempt) \<Rightarrow> nat \<Rightarrow> response comp" where
  "requestFn transport k =
     andThen (act (Fetch k))
       (\<lambda>_. case fetchWithTimeout (transport k) of Inl e \<Rightarrow> throw e | Inr r \<Rightarrow> ret r)"

text \<open>
  One invocation of \<open>retryableRequest\<close> up to its \<open>return\<close>. Both retries are written
  \<open>return this.retryableRequest(requestFn, retryCount + 1)\<close>: the promise of the retry is
  handed to the caller without \<open>await\<close>, so a failure of the retry is not caught by the
  \<open>catch\<close> of this invocation. \<open>Again\<close> stands for that hand-over.
\<close>

datatype 'a step = Done 'a | Again

definition attemptOnce ::
  "nat \<Rightarrow> parsera \<Rightarrow> (nat \<Rightarrow> attempt) \<Rightarrow> nat \<Rightarrow> response step comp" where
  "attemptOnce n p transport retryCount =
     catch
       (andThen (act Throttle) (\<lambda>_.
        andThen (requestFn transport retryCount) (\<lambda>response.
          if status response = 429 \<and> int retryCount < maxRetries (retryOptions p) then
            andThen (emit n p ''rateLimit'' (RetryCount retryCount) None None) (\<lambda>_.
            andThen (emit n p ''request:retry'' (RetryCount retryCount) None None) (\<lambda>_.
            andThen (act (Sleep (backoff p retryCount))) (\<lambda>_.
            ret Again)))
          else ret (Done response))))
       (\<lambda>error.
          case error of
            Error nm msg \<Rightarrow>
              andThen (if nm = ''AbortError''
                       then emit n p ''timeout'' NoPayload (Some error) None
                       else ret ()) (\<lambda>_.
              andThen (emit n p ''request:error'' NoPayload (Some error) None) (\<lambda>_.
                if int retryCount < maxRetries (retryOptions p) \<and> isRetryableError error then
                  andThen (emit n p ''request:retry'' (RetryCount retryCount) None None) (\<lambda>_.
                  andThen (act (Sleep (backoff p retryCount))) (\<lambda>_.
                  ret Again))
                else throw error))
          | Other v \<Rightarrow> throw error)"

lemma andThen_cong [fundef_cong]:
  assumes "m = m'" and "\<And>x t. m' = Some (Inr x, t) \<Longrightarrow> f x = f' x"
  shows "andThen m f = andThen m' f'"
  using assms by (auto simp: andThen_def split: option.splits sum.splits)

lemma attemptOnce_Again:
  assumes "attemptOnce n p transport retryCount = Some (Inr Again, t)"
  shows "int retryCount < maxRetries (retryOptions p)"
  using assms
  by (auto simp: attemptOnce_def catch_def andThen_def ret_def throw_def act_def
           split: option.splits sum.splits if_splits thrown.splits prod.splits)

function retryableRequest ::
  "nat \<Rightarrow> parsera \<Rightarrow> (nat \<Rightarrow> attempt) \<Rightarrow> nat \<Rightarrow> response comp" where
  "retryableRequest n p transport retryCount =
     andThen (attemptOnce n p transport retryCount)
       (\<lambda>nx. case nx of
                Done response \<Rightarrow> ret response
              | Again \<Rightarrow> retryableRequest n p transport (retryCount + 1))"
  by pat_completeness auto
termination
  by (relation "measure (\<lambda>(n, p, transport, retryCount).
                   nat (maxRetries (retryOptions p) - int retryCount))")
     (auto dest: attemptOnce_Again)

declare retryableRequest.simps [simp del]

text \<open>
  \<open>handleError\<close> reads the body before it looks at the status, so a body that is not JSON
  rejects with the parser's error, whatever the status. \<open>x || y\<close> on strings takes \<open>y\<close>
  when \<open>x\<close> is missing or empty.
\<close>

definition orElse :: "string option \<Rightarrow> string \<Rightarrow> string" where
  "orElse x y = (case x of None \<Rightarrow> y | Some m \<Rightarrow> if m = [] then y else m)"

definition handleError :: "response \<Rightarrow> 'a comp" where
  "handleError response =
     (case json response of
        Inl e \<Rightarrow> throw e
      | Inr errorData \<Rightarrow>
          if status response = 401 then
            throw (Error ''Error'' ''Invalid Parsera API key. Please check your credentials.'')
          else if status response = 429 then
            throw (Error ''Error'' ''Rate limit exceeded. Please try again later.'')
          else if status response = 400 then
            throw (Error ''Error''
                     (''Bad request: '' @ orElse (message errorData) ''Unknown error''))
          else
            throw (Error ''Error''
                     (''Parsera API error: '' @ orElse (message errorData) (statusText response))))"

text \<open>
  \<open>new URL(url)\<close> belongs to the platform; \<open>parses\<close> says for which strings it succeeds.
\<close>

definition validateUrl :: "(string \<Rightarrow> bool) \<Rightarrow> string \<Rightarrow> unit comp" where
  "validateUrl parses u = (if parses u then ret () else throw (Error ''Error'' ''Invalid URL format''))"

definition noDataMessage :: string where
  "noDataMessage = ''No data returned from Parsera API. Make sure the website contains the data and the attribute descriptions are clear.''"

text \<open>
  \<open>extract\<close>, here \<open>extractData\<close> (the source's name is a reserved word of the prover). The
  request body it builds goes to the server only and plays no part in what the client does
  next, so it is left out; \<open>transport\<close> says what each call of \<open>fetch\<close> meets.
  \<open>tryExtract\<close> is the \<open>try\<close> block of \<open>extract\<close>.
\<close>

definition tryExtract :: "nat \<Rightarrow> parsera \<Rightarrow> (nat \<Rightarrow> attempt) \<Rightarrow> row list comp" where
  "tryExtract n p transport =
     andThen (retryableRequest n p transport 0) (\<lambda>response.
     andThen (if \<not> ok response then handleError response else ret ()) (\<lambda>_.
     andThen (case json response of Inl e \<Rightarrow> throw e | Inr d \<Rightarrow> ret d) (\<lambda>d.
       case data d of
         None \<Rightarrow> throw (Error ''Error'' (orElse (message d) noDataMessage))
       | Some rows \<Rightarrow>
           if rows = [] then throw (Error ''Error'' (orElse (message d) noDataMessage))
           else andThen (emit n p ''extract:complete'' (Reply d) None None) (\<lambda>_.
                ret rows))))"

definition extractData ::
  "nat \<Rightarrow> parsera \<Rightarrow> (string \<Rightarrow> bool) \<Rightarrow> (nat \<Rightarrow> attempt) \<Rightarrow> request \<Rightarrow> row list comp" where
  "extractData n p parses transport req =
     andThen (emit n p ''extract:start'' (Request req) None None) (\<lambda>_.
     andThen (validateUrl parses (url req)) (\<lambda>_.
     catch (tryExtract n p transport)
       (\<lambda>error.
          case error of
            Error nm msg \<Rightarrow>
              andThen (emit n p ''extract:error'' NoPayload (Some error) None) (\<lambda>_.
                if msg = ''Request timed out'' then throw error
                else throw (Error ''Error'' (''Failed to extract data: '' @ msg)))
          | Other v \<Rightarrow> throw (Error ''Error'' ''Failed to extract data: Unknown error''))))"

text \<open>Reading a list of actions.\<close>

fun isFetch :: "action \<Rightarrow> bool" where
  "isFetch (Fetch k) = True"
| "isFetch a = False"

fun emits :: "string \<Rightarrow> action \<Rightarrow> bool" where
  "emits t (Emit ev hs) = (evType ev = t)"
| "emits t a = False"

fun isSleep :: "action \<Rightarrow> bool" where
  "isSleep (Sleep ms) = True"
| "isSleep a = False"

definition attempts :: "action list \<Rightarrow> nat" where
  "attempts tr = length (filter isFetch tr)"

definition emitted :: "string \<Rightarrow> action list \<Rightarrow> nat" where
  "emitted t tr = length (filter (emits t) tr)"

section \<open>Clients whose listeners do not disturb the operation\<close>

text \<open>
  An exception that leaves \<open>emit\<close> changes what the calling operation does next. The claims
  about the retry controller and about \<open>extract\<close> speak of a client for which that does not
  happen: every emission returns, and returns normally. A client with no listener is one;
  so is one whose listeners all return.
\<close>

definition quiet :: "nat \<Rightarrow> parsera \<Rightarrow> bool" where
  "quiet n p = (\<forall>ev. \<exists>ss. emitRun n p ev = Some (ss, None))"

definition heardOf :: "nat \<Rightarrow> parsera \<Rightarrow> event \<Rightarrow> heard list" where
  "heardOf n p ev = (case emitRun n p ev of None \<Rightarrow> [] | Some (ss, r) \<Rightarrow> concat ss)"

text \<open>The action of \<open>this.emit(t, d, e)\<close>, as every call in the source is written.\<close>

definition said :: "nat \<Rightarrow> parsera \<Rightarrow> string \<Rightarrow> payload \<Rightarrow> thrown option \<Rightarrow> action" where
  "said n p t d e =
     Emit \<lparr>evType = t, evData = d, evError = e, evRetryCount = None\<rparr>
       (heardOf n p \<lparr>evType = t, evData = d, evError = e, evRetryCount = None\<rparr>)"

section \<open>Sample inputs\<close>

text \<open>A client as the constructor leaves it when no retry options are given, with no listener.\<close>

definition defaultClient :: parsera where
  "defaultClient =
     \<lparr>retryOptions = \<lparr>maxRetries = 3, backoffFactor = 2, initialDelay = 1000\<rparr>,
      eventHandlers = Map.empty, eventOptions = Map.empty\<rparr>"

definition noOptions :: eventOptionsArg where
  "noOptions = \<lparr>asyncArg = None, catchErrorsArg = None\<rparr>"

definition watcher :: handler where
  "watcher = \<lparr>hid = 0, fn = (\<lambda>ev. Effect ''seen'' Return)\<rparr>"


definition fast :: handler where
  "fast = \<lparr>hid = 2, fn = (\<lambda>ev. Effect ''b1'' Return)\<rparr>"

definition grumbler :: handler where
  "grumbler = \<lparr>hid = 3, fn = (\<lambda>ev. Throw (Error ''Error'' ''network down''))\<rparr>"

definition strictOptions :: eventOptionsArg where
  "strictOptions = \<lparr>asyncArg = None, catchErrorsArg = Some False\<rparr>"

definition sampleRequest :: request where
  "sampleRequest =
     \<lparr>url = ''https://example.com'', attributes = [(''title'', ''Extract the title'')],
      proxyCountry = None, cookies = None, precisionMode = None, signal = True\<rparr>"


definition tooMany :: response where
  "tooMany = \<lparr>status = 429, statusText = ''Too Many Requests'',
              json = Inr \<lparr>data = None, message = Some ''Rate limit exceeded''\<rparr>\<rparr>"

definition tooManyHtml :: response where
  "tooManyHtml = \<lparr>status = 429, statusText = ''Too Many Requests'',
                  json = Inl (Error ''SyntaxError'' ''Unexpected token < in JSON at position 0'')\<rparr>"

definition found :: response where
  "found = \<lparr>status = 200, statusText = ''OK'',
            json = Inr \<lparr>data = Some [[(''title'', ''Test Title'')]], message = None\<rparr>\<rparr>"

definition emptyTimedOut :: response where
  "emptyTimedOut = \<lparr>status = 200, statusText = ''OK'',
                    json = Inr \<lparr>data = Some [], message = Some ''Request timed out''\<rparr>\<rparr>"

text \<open>
  A client whose only listener throws on \<open>rateLimit\<close>, registered with
  \<open>catchErrors: false\<close>, and a transport that answers 429 once and then succeeds.
\<close>

definition strict :: parsera where
  "strict = on defaultClient ''rateLimit'' grumbler strictOptions"

definition limitEvent :: event where
  "limitEvent = \<lparr>evType = ''rateLimit'', evData = RetryCount 0, evError = None,
                  evRetryCount = None\<rparr>"

definition onceLimited :: "nat \<Rightarrow> attempt" where
  "onceLimited k = (if k < 1 then Responds tooMany else Responds found)"

section \<open>Basic facts\<close>

lemma andThen_None [simp]: "andThen None f = None"
  by (simp add: andThen_def)

lemma andThen_Inl [simp]: "andThen (Some (Inl e, t)) f = Some (Inl e, t)"
  by (simp add: andThen_def)

lemma andThen_Inr [simp]:
  "andThen (Some (Inr x, t)) f = (case f x of None \<Rightarrow> None | Some (r, t') \<Rightarrow> Some (r, t @ t'))"
  by (simp add: andThen_def)

lemma catch_None [simp]: "catch None f = None"
  by (simp add: catch_def)

lemma catch_Inr [simp]: "catch (Some (Inr x, t)) f = Some (Inr x, t)"
  by (simp add: catch_def)

lemma catch_Inl [simp]:
  "catch (Some (Inl e, t)) f = (case f e of None \<Rightarrow> None | Some (r, t') \<Rightarrow> Some (r, t @ t'))"
  by (simp add: catch_def)

lemma emit_quiet:
  assumes "quiet n p"
  shows "emit n p t d e None = Some (Inr (), [said n p t d e])"
proof -
  obtain ss where "emitRun n p \<lparr>evType = t, evData = d, evError = e, evRetryCount = None\<rparr> = Some (ss, None)"
    using assms unfolding quiet_def by blast
  then show ?thesis by (simp add: emit_def said_def heardOf_def)
qed

lemma fetchWithTimeout_not_abort: "fetchWithTimeout a \<noteq> Inl (Error ''AbortError'' msg)"
  by (cases a) (auto simp: abortError_def timeoutError_def split: sum.splits thrown.splits)

lemma requestFn_Inr:
  "fetchWithTimeout (transport k) = Inr r \<Longrightarrow> requestFn transport k = Some (Inr r, [Fetch k])"
  by (simp add: requestFn_def act_def ret_def)

lemma requestFn_Inl:
  "fetchWithTimeout (transport k) = Inl e \<Longrightarrow> requestFn transport k = Some (Inl e, [Fetch k])"
  by (simp add: requestFn_def act_def throw_def)

lemma attemptOnce_retry429:
  assumes "quiet n p" "fetchWithTimeout (transport k) = Inr r" "status r = 429"
    "int k < maxRetries (retryOptions p)"
  shows "attemptOnce n p transport k =
     Some (Inr Again, [Throttle, Fetch k, said n p ''rateLimit'' (RetryCount k) None,
                       said n p ''request:retry'' (RetryCount k) None, Sleep (backoff p k)])"
  using assms by (simp add: attemptOnce_def requestFn_Inr emit_quiet act_def ret_def)

lemma attemptOnce_done:
  assumes "fetchWithTimeout (transport k) = Inr r"
    "\<not> (status r = 429 \<and> int k < maxRetries (retryOptions p))"
  shows "attemptOnce n p transport k = Some (Inr (Done r), [Throttle, Fetch k])"
  using assms by (cases "status r = 429") (simp_all add: attemptOnce_def requestFn_Inr act_def ret_def)

lemma attemptOnce_retryError:
  assumes "quiet n p" "fetchWithTimeout (transport k) = Inl (Error nm msg)"
    "int k < maxRetries (retryOptions p)" "isRetryableError (Error nm msg)"
  shows "attemptOnce n p transport k =
     Some (Inr Again, [Throttle, Fetch k, said n p ''request:error'' NoPayload (Some (Error nm msg)),
                       said n p ''request:retry'' (RetryCount k) None, Sleep (backoff p k)])"
proof -
  have "nm \<noteq> ''AbortError''" using assms(2) fetchWithTimeout_not_abort by metis
  then show ?thesis using assms
    by (simp add: attemptOnce_def requestFn_Inl emit_quiet act_def ret_def)
qed

lemma attemptOnce_failError:
  assumes "quiet n p" "fetchWithTimeout (transport k) = Inl (Error nm msg)"
    "\<not> (int k < maxRetries (retryOptions p) \<and> isRetryableError (Error nm msg))"
  shows "attemptOnce n p transport k =
     Some (Inl (Error nm msg),
           [Throttle, Fetch k, said n p ''request:error'' NoPayload (Some (Error nm msg))])"
proof -
  have "nm \<noteq> ''AbortError''" using assms(2) fetchWithTimeout_not_abort by metis
  then show ?thesis using assms
    by (cases "int k < maxRetries (retryOptions p)")
       (simp_all add: attemptOnce_def requestFn_Inl emit_quiet act_def ret_def throw_def)
qed

lemma attemptOnce_failOther:
  assumes "fetchWithTimeout (transport k) = Inl (Other v)"
  shows "attemptOnce n p transport k = Some (Inl (Other v), [Throttle, Fetch k])"
  using assms by (simp add: attemptOnce_def requestFn_Inl act_def throw_def)

lemma retryableRequest_again:
  "attemptOnce n p transport k = Some (Inr Again, t) \<Longrightarrow>
   retryableRequest n p transport k =
     (case retryableRequest n p transport (k + 1) of
        None \<Rightarrow> None | Some (r, t') \<Rightarrow> Some (r, t @ t'))"
  by (subst retryableRequest.simps) simp

lemma retryableRequest_done:
  "attemptOnce n p transport k = Some (Inr (Done r), t) \<Longrightarrow>
   retryableRequest n p transport k = Some (Inr r, t)"
  by (subst retryableRequest.simps) (simp add: ret_def)

lemma retryableRequest_fail:
  "attemptOnce n p transport k = Some (Inl e, t) \<Longrightarrow>
   retryableRequest n p transport k = Some (Inl e, t)"
  by (subst retryableRequest.simps) simp

lemma those_map_Some: "those (map (\<lambda>x. Some (f x)) xs) = Some (map f xs)"
  by (induction xs) simp_all

lemma earliest_None: "\<forall>r\<in>set rs. snd r = None \<Longrightarrow> earliest rs = None"
  by (induction rs rule: earliest.induct) auto

lemma handleEvent_returns:
  "outcome (fn h ev) = None \<Longrightarrow>
   handleEvent reemit opts ev h = Some (map (map (Did (hid h))) (segments (fn h ev)), None)"
  by (simp add: handleEvent_def)

lemma deliver_returning:
  assumes "\<And>hs h. eventHandlers p (evType ev) = Some hs \<Longrightarrow> h \<in> set hs \<Longrightarrow> outcome (fn h ev) = None"
  shows "\<exists>ss. deliver reemit p ev = Some (ss, None)"
proof (cases "eventHandlers p (evType ev)")
  case None
  then show ?thesis by (simp add: deliver_def)
next
  case (Some hs)
  define opts where "opts = optionsFor p (evType ev)"
  define f where "f = (\<lambda>h::handler. (map (map (Did (hid h))) (segments (fn h ev)), None :: thrown option))"
  have eq: "map (handleEvent reemit opts ev) hs = map (\<lambda>h. Some (f h)) hs"
    using assms [OF Some] by (simp add: handleEvent_returns f_def)
  have th: "those (map (handleEvent reemit opts ev) hs) = Some (map f hs)"
    unfolding eq by (rule those_map_Some)
  have "earliest (map f hs) = None"
    by (rule earliest_None) (simp add: f_def)
  then have "\<exists>ss. awaitAll (map f hs) = (ss, None)"
    by (simp add: awaitAll_def)
  then show ?thesis
    using Some th by (auto simp: deliver_def opts_def [symmetric])
qed

lemma emitRun_deliver: "\<exists>reemit. emitRun n p ev = deliver reemit p ev"
  by (cases n) auto

lemma quiet_returning:
  assumes "\<And>t hs h ev. eventHandlers p t = Some hs \<Longrightarrow> h \<in> set hs \<Longrightarrow> outcome (fn h ev) = None"
  shows "quiet n p"
  unfolding quiet_def
proof
  fix ev
  obtain reemit where "emitRun n p ev = deliver reemit p ev"
    using emitRun_deliver by blast
  moreover have "\<exists>ss. deliver reemit p ev = Some (ss, None)"
    by (rule deliver_returning) (rule assms)
  ultimately show "\<exists>ss. emitRun n p ev = Some (ss, None)" by simp
qed

lemma quiet_defaultClient: "quiet n defaultClient"
  by (rule quiet_returning) (simp add: defaultClient_def)

lemma quiet_watcher: "quiet n (on defaultClient t watcher opts)"
  by (rule quiet_returning)
     (auto simp: on_def defaultClient_def add_def watcher_def split: if_splits)

lemma handleError_throws: "\<exists>e. handleError r = Some (Inl e, [])"
  by (cases "json r") (simp_all add: handleError_def throw_def)

lemma tryExtract_fail:
  "retryableRequest n p transport 0 = Some (Inl e, t) \<Longrightarrow> tryExtract n p transport = Some (Inl e, t)"
  by (simp add: tryExtract_def)

lemma tryExtract_notOk:
  assumes "retryableRequest n p transport 0 = Some (Inr r, t)" "\<not> ok r"
    "(handleError r :: unit comp) = Some (Inl e, [])"
  shows "tryExtract n p transport = Some (Inl e, t)"
  using assms by (simp add: tryExtract_def)

lemma tryExtract_unparsed:
  assumes "retryableRequest n p transport 0 = Some (Inr r, t)" "ok r" "json r = Inl e"
  shows "tryExtract n p transport = Some (Inl e, t)"
  using assms by (simp add: tryExtract_def ret_def throw_def)

lemma tryExtract_noData:
  assumes "retryableRequest n p transport 0 = Some (Inr r, t)" "ok r" "json r = Inr d"
    "data d = None \<or> data d = Some []"
  shows "tryExtract n p transport =
           Some (Inl (Error ''Error'' (orElse (message d) noDataMessage)), t)"
  using assms by (auto simp: tryExtract_def ret_def throw_def)

lemma tryExtract_rows:
  assumes "quiet n p" "retryableRequest n p transport 0 = Some (Inr r, t)" "ok r"
    "json r = Inr d" "data d = Some rows" "rows \<noteq> []"
  shows "tryExtract n p transport =
           Some (Inr rows, t @ [said n p ''extract:complete'' (Reply d) None])"
  using assms by (simp add: tryExtract_def ret_def emit_quiet)

lemma extractData_invalid:
  assumes "quiet n p" "\<not> parses (url req)"
  shows "extractData n p parses transport req =
           Some (Inl (Error ''Error'' ''Invalid URL format''),
                 [said n p ''extract:start'' (Request req) None])"
  using assms by (simp add: extractData_def emit_quiet validateUrl_def throw_def)

lemma extractData_rows:
  assumes "quiet n p" "parses (url req)" "tryExtract n p transport = Some (Inr rows, t)"
  shows "extractData n p parses transport req =
           Some (Inr rows, said n p ''extract:start'' (Request req) None # t)"
  using assms by (simp add: extractData_def emit_quiet validateUrl_def ret_def)

lemma extractData_failError:
  assumes "quiet n p" "parses (url req)"
    "tryExtract n p transport = Some (Inl (Error nm msg), t)"
  shows "extractData n p parses transport req =
           Some (Inl (if msg = ''Request timed out'' then Error nm msg
                      else Error ''Error'' (''Failed to extract data: '' @ msg)),
                 said n p ''extract:start'' (Request req) None # t @
                 [said n p ''extract:error'' NoPayload (Some (Error nm msg))])"
  using assms by (simp add: extractData_def emit_quiet validateUrl_def ret_def throw_def)

lemma extractData_failOther:
  assumes "quiet n p" "parses (url req)"
    "tryExtract n p transport = Some (Inl (Other v), t)"
  shows "extractData n p parses transport req =
           Some (Inl (Error ''Error'' ''Failed to extract data: Unknown error''),
                 said n p ''extract:start'' (Request req) None # t)"
  using assms by (simp add: extractData_def emit_quiet validateUrl_def ret_def throw_def)

section \<open>The deadline wrapper\<close>

text \<open>
  C1 (fails on the code). The claim wants an abort classified by its cause: \<open>Timeout\<close> when
  the timer fired, a different \<open>Cancelled\<close> failure when the caller's signal fired. The
  wrapper's \<open>catch\<close> sees the same \<open>AbortError\<close> in both cases and turns both into the
  error named \<open>TimeoutError\<close> with the message \<open>Request timed out\<close>.
\<close>

theorem fetchWithTimeout_abort_same:
  "fetchWithTimeout SignalFires = Inl (Error ''TimeoutError'' ''Request timed out'')
   \<and> fetchWithTimeout TimerFires = fetchWithTimeout SignalFires"
  by (simp add: abortError_def timeoutError_def)

section \<open>The retry controller\<close>

lemma timeoutError_not_retryable: "\<not> isRetryableError (Error ''TimeoutError'' ''Request timed out'')"
  by simp

lemma retryableRequest_timeout:
  assumes "quiet n p" "fetchWithTimeout (transport k) = Inl timeoutError"
  shows "retryableRequest n p transport k =
           Some (Inl timeoutError,
                 [Throttle, Fetch k, said n p ''request:error'' NoPayload (Some timeoutError)])"
proof -
  have "attemptOnce n p transport k =
          Some (Inl (Error ''TimeoutError'' ''Request timed out''),
                [Throttle, Fetch k,
                 said n p ''request:error'' NoPayload
                   (Some (Error ''TimeoutError'' ''Request timed out''))])"
    using assms timeoutError_not_retryable
    by (intro attemptOnce_failError) (simp_all add: timeoutError_def)
  then show ?thesis
    by (simp add: retryableRequest_fail timeoutError_def)
qed

text \<open>
  C2 (fails on the code). The claim wants a \<open>timeout\<close> event for an attempt whose deadline
  elapsed. \<open>retryableRequest\<close> emits it for an error named \<open>AbortError\<close>, but the wrapper has
  renamed the error to \<open>TimeoutError\<close> by then: with a listener on \<open>timeout\<close> and the timer
  firing on the first call, the extraction fails with the timeout error, \<open>request:error\<close> is
  emitted once and \<open>timeout\<close> is not emitted.
\<close>

theorem timeout_event_not_emitted:
  "\<exists>tr. extractData 0 (on defaultClient ''timeout'' watcher noOptions)
           (\<lambda>u. True) (\<lambda>k. TimerFires) sampleRequest = Some (Inl timeoutError, tr)
        \<and> emitted ''timeout'' tr = 0
        \<and> emitted ''request:error'' tr = 1
        \<and> attempts tr = 1"
proof -
  let ?p = "on defaultClient ''timeout'' watcher noOptions"
  have q: "quiet 0 ?p" by (rule quiet_watcher)
  have "retryableRequest 0 ?p (\<lambda>k. TimerFires) 0 =
          Some (Inl timeoutError,
                [Throttle, Fetch 0, said 0 ?p ''request:error'' NoPayload (Some timeoutError)])"
    using q by (rule retryableRequest_timeout) (simp add: abortError_def)
  then have "tryExtract 0 ?p (\<lambda>k. TimerFires) =
          Some (Inl (Error ''TimeoutError'' ''Request timed out''),
                [Throttle, Fetch 0, said 0 ?p ''request:error'' NoPayload (Some timeoutError)])"
    by (simp add: tryExtract_fail timeoutError_def)
  then have "extractData 0 ?p (\<lambda>u. True) (\<lambda>k. TimerFires) sampleRequest =
          Some (Inl timeoutError,
                said 0 ?p ''extract:start'' (Request sampleRequest) None #
                [Throttle, Fetch 0, said 0 ?p ''request:error'' NoPayload (Some timeoutError)] @
                [said 0 ?p ''extract:error'' NoPayload (Some timeoutError)])"
    using q by (simp add: extractData_failError timeoutError_def)
  then show ?thesis
    by (simp add: emitted_def attempts_def said_def)
qed

text \<open>
  C3. On a quiet client and with retries left, an attempt that failed with an \<open>Error\<close> is
  retried exactly when the error's message contains \<open>network\<close>, \<open>timeout\<close> or
  \<open>ECONNRESET\<close>. The error the wrapper makes of an elapsed deadline has the message
  \<open>Request timed out\<close>, which contains none of them: such an attempt is not retried, whatever
  the retry policy and the attempt count; the request fails after \<open>request:error\<close>.
\<close>

theorem retry_decided_by_message:
  assumes "quiet n p" and "int k < maxRetries (retryOptions p)"
  shows "(\<forall>nm msg. fetchWithTimeout (transport k) = Inl (Error nm msg) \<longrightarrow>
            ((\<exists>t. attemptOnce n p transport k = Some (Inr Again, t)) =
             (includes_str msg ''network'' \<or> includes_str msg ''timeout''
              \<or> includes_str msg ''ECONNRESET'')))
       \<and> fetchWithTimeout TimerFires = Inl timeoutError
       \<and> timeoutError = Error ''TimeoutError'' ''Request timed out''
       \<and> \<not> isRetryableError timeoutError
       \<and> (fetchWithTimeout (transport k) = Inl timeoutError \<longrightarrow>
            retryableRequest n p transport k =
              Some (Inl timeoutError,
                    [Throttle, Fetch k, said n p ''request:error'' NoPayload (Some timeoutError)]))"
proof -
  have "(\<exists>t. attemptOnce n p transport k = Some (Inr Again, t)) =
          (includes_str msg ''network'' \<or> includes_str msg ''timeout''
           \<or> includes_str msg ''ECONNRESET'')"
    if f: "fetchWithTimeout (transport k) = Inl (Error nm msg)" for nm msg
  proof (cases "isRetryableError (Error nm msg)")
    case True
    then show ?thesis
      using assms f by (simp add: attemptOnce_retryError)
  next
    case False
    then show ?thesis
      using assms f by (simp add: attemptOnce_failError)
  qed
  moreover have "fetchWithTimeout TimerFires = Inl timeoutError"
    by (simp add: abortError_def)
  moreover have "\<not> isRetryableError timeoutError"
    by (simp add: timeoutError_def)
  ultimately show ?thesis
    using retryableRequest_timeout [OF assms(1)] by (simp add: timeoutError_def)
qed

theorem retry_decided_by_message_witness:
  "retryableRequest 0 defaultClient (\<lambda>k. TimerFires) 0 =
     Some (Inl timeoutError,
           [Throttle, Fetch 0, said 0 defaultClient ''request:error'' NoPayload (Some timeoutError)])
   \<and> (\<exists>t. attemptOnce 0 defaultClient (\<lambda>k. Rejects (Error ''TypeError'' ''network error'')) 0
            = Some (Inr Again, t))"
proof -
  have k: "int 0 < maxRetries (retryOptions defaultClient)"
    by (simp add: defaultClient_def)
  show ?thesis
    using retry_decided_by_message [OF quiet_defaultClient k, where transport = "\<lambda>k. TimerFires"]
      retry_decided_by_message [OF quiet_defaultClient k,
        where transport = "\<lambda>k. Rejects (Error ''TypeError'' ''network error'')"]
    by (simp add: abortError_def)
qed

section \<open>The extraction\<close>

text \<open>
  C6. When the URL does not parse, \<open>extract\<close> on a quiet client emits \<open>extract:start\<close>
  once and then fails with \<open>Invalid URL format\<close>: nothing else happens, so \<open>extract:error\<close>
  is not emitted and the transport is not called.
\<close>

theorem invalid_url_fails_early:
  assumes "quiet n p" and "\<not> parses (url req)"
  shows "\<exists>tr. extractData n p parses transport req =
                Some (Inl (Error ''Error'' ''Invalid URL format''), tr)
             \<and> tr = [said n p ''extract:start'' (Request req) None]
             \<and> emitted ''extract:start'' tr = 1
             \<and> emitted ''extract:error'' tr = 0
             \<and> attempts tr = 0"
  using assms by (simp add: extractData_invalid emitted_def attempts_def said_def)

theorem invalid_url_fails_early_witness:
  "\<exists>tr. extractData 0 defaultClient (\<lambda>u. False) (\<lambda>k. TimerFires) sampleRequest =
                Some (Inl (Error ''Error'' ''Invalid URL format''), tr)
             \<and> tr = [said 0 defaultClient ''extract:start'' (Request sampleRequest) None]
             \<and> emitted ''extract:start'' tr = 1
             \<and> emitted ''extract:error'' tr = 0
             \<and> attempts tr = 0"
  using invalid_url_fails_early [where n = 0 and p = defaultClient and parses = "\<lambda>u. False"
      and req = sampleRequest and transport = "\<lambda>k. TimerFires"] quiet_defaultClient
  by simp

lemma not_ok_429: "status r = 429 \<Longrightarrow> \<not> ok r"
  by (simp add: ok_def)

lemma handleError_429:
  "status r = 429 \<Longrightarrow> json r = Inr d \<Longrightarrow>
   handleError r = Some (Inl (Error ''Error'' ''Rate limit exceeded. Please try again later.''), [])"
  by (simp add: handleError_def throw_def)

lemma handleError_unparsed:
  "json r = Inl e \<Longrightarrow> handleError r = Some (Inl e, [])"
  by (simp add: handleError_def throw_def)

lemma retryableRequest_all429:
  assumes q: "quiet n p"
    and t: "\<forall>k. \<exists>r. transport k = Responds r \<and> status r = 429"
  shows "m = nat (maxRetries (retryOptions p) - int k) \<Longrightarrow>
         \<exists>r tr. retryableRequest n p transport k = Some (Inr r, tr)
              \<and> transport (k + m) = Responds r
              \<and> attempts tr = m + 1
              \<and> emitted ''extract:error'' tr = 0"
proof (induction m arbitrary: k)
  case 0
  obtain r where r: "transport k = Responds r" "status r = 429"
    using t by blast
  have "\<not> int k < maxRetries (retryOptions p)"
    using 0 by linarith
  then have "attemptOnce n p transport k = Some (Inr (Done r), [Throttle, Fetch k])"
    using r by (intro attemptOnce_done [where r = r]) simp_all
  then have "retryableRequest n p transport k = Some (Inr r, [Throttle, Fetch k])"
    by (rule retryableRequest_done)
  then show ?case
    using r by (simp add: attempts_def emitted_def)
next
  case (Suc m)
  obtain r where r: "transport k = Responds r" "status r = 429"
    using t by blast
  have less: "int k < maxRetries (retryOptions p)"
    using Suc.prems by linarith
  have "attemptOnce n p transport k =
     Some (Inr Again, [Throttle, Fetch k, said n p ''rateLimit'' (RetryCount k) None,
                       said n p ''request:retry'' (RetryCount k) None, Sleep (backoff p k)])"
    using q r less by (intro attemptOnce_retry429 [where r = r]) simp_all
  then have step: "retryableRequest n p transport k =
     (case retryableRequest n p transport (k + 1) of
        None \<Rightarrow> None
      | Some (x, t') \<Rightarrow>
          Some (x, [Throttle, Fetch k, said n p ''rateLimit'' (RetryCount k) None,
                    said n p ''request:retry'' (RetryCount k) None, Sleep (backoff p k)] @ t'))"
    by (rule retryableRequest_again)
  have "m = nat (maxRetries (retryOptions p) - int (k + 1))"
    using Suc.prems by linarith
  then obtain r' tr' where
    ih: "retryableRequest n p transport (k + 1) = Some (Inr r', tr')"
        "transport (k + 1 + m) = Responds r'"
        "attempts tr' = m + 1" "emitted ''extract:error'' tr' = 0"
    using Suc.IH by blast
  show ?case
    using ih by (simp add: step attempts_def emitted_def said_def)
qed

lemma extractData_all429:
  assumes "quiet n p" and "parses (url req)"
    and "\<forall>k. \<exists>r. transport k = Responds r \<and> status r = 429"
  shows "\<exists>tr r. transport (nat (maxRetries (retryOptions p))) = Responds r
           \<and> attempts tr = nat (maxRetries (retryOptions p)) + 1
           \<and> (case json r of
                 Inr d \<Rightarrow>
                   extractData n p parses transport req =
                     Some (Inl (Error ''Error''
                       ''Failed to extract data: Rate limit exceeded. Please try again later.''), tr)
                   \<and> emitted ''extract:error'' tr = 1
                   \<and> last tr = said n p ''extract:error'' NoPayload
                        (Some (Error ''Error'' ''Rate limit exceeded. Please try again later.''))
               | Inl (Error nm msg) \<Rightarrow>
                   extractData n p parses transport req =
                     Some (Inl (if msg = ''Request timed out'' then Error nm msg
                                else Error ''Error'' (''Failed to extract data: '' @ msg)), tr)
                   \<and> emitted ''extract:error'' tr = 1
                   \<and> last tr = said n p ''extract:error'' NoPayload (Some (Error nm msg))
               | Inl (Other v) \<Rightarrow>
                   extractData n p parses transport req =
                     Some (Inl (Error ''Error'' ''Failed to extract data: Unknown error''), tr)
                   \<and> emitted ''extract:error'' tr = 0)"
proof -
  obtain r t where
    rr: "retryableRequest n p transport 0 = Some (Inr r, t)"
        "transport (nat (maxRetries (retryOptions p))) = Responds r"
        "attempts t = nat (maxRetries (retryOptions p)) + 1" "emitted ''extract:error'' t = 0"
    using retryableRequest_all429 [OF assms(1) assms(3), of "nat (maxRetries (retryOptions p))" 0]
    by auto
  have st: "status r = 429"
    using assms(3) rr(2) by (metis attempt.inject(1))
  have nok: "\<not> ok r" using st by (rule not_ok_429)
  show ?thesis
  proof (cases "json r")
    case (Inr d)
    have "tryExtract n p transport =
            Some (Inl (Error ''Error'' ''Rate limit exceeded. Please try again later.''), t)"
      using rr(1) nok by (rule tryExtract_notOk) (simp add: handleError_429 st Inr)
    then have "extractData n p parses transport req =
        Some (Inl (Error ''Error''
                ''Failed to extract data: Rate limit exceeded. Please try again later.''),
              said n p ''extract:start'' (Request req) None # t @
              [said n p ''extract:error'' NoPayload
                 (Some (Error ''Error'' ''Rate limit exceeded. Please try again later.''))])"
      using assms(1,2) by (simp add: extractData_failError)
    then show ?thesis
      using rr Inr by (auto simp: attempts_def emitted_def said_def)
  next
    case (Inl e)
    have te: "tryExtract n p transport = Some (Inl e, t)"
      using rr(1) nok by (rule tryExtract_notOk) (simp add: handleError_unparsed Inl)
    show ?thesis
    proof (cases e)
      case (Error nm msg)
      have "extractData n p parses transport req =
          Some (Inl (if msg = ''Request timed out'' then Error nm msg
                     else Error ''Error'' (''Failed to extract data: '' @ msg)),
                said n p ''extract:start'' (Request req) None # t @
                [said n p ''extract:error'' NoPayload (Some (Error nm msg))])"
        using assms(1,2) te Error by (simp add: extractData_failError)
      then show ?thesis
        using rr Inl Error by (auto simp: attempts_def emitted_def said_def)
    next
      case (Other v)
      have "extractData n p parses transport req =
          Some (Inl (Error ''Error'' ''Failed to extract data: Unknown error''),
                said n p ''extract:start'' (Request req) None # t)"
        using assms(1,2) te Other by (simp add: extractData_failOther)
      then show ?thesis
        using rr Inl Other by (auto simp: attempts_def emitted_def said_def)
    qed
  qed
qed

text \<open>
  C4. Retry policy \<open>{maxRetries: 3, initialDelay: 1000, backoffFactor: 2}\<close>, a quiet
  client, a URL that parses; the transport answers 429, 429 and then a success whose data is
  not empty. \<open>extract\<close> returns that data after exactly three calls of the transport;
  \<open>rateLimit\<close> and \<open>request:retry\<close> are emitted twice each and \<open>extract:complete\<close> once;
  the wait before the retry that follows attempt \<open>n\<close> is \<open>1000 * 2 ^ n\<close> milliseconds.
\<close>

theorem two_429_then_success:
  assumes "quiet n p"
    and "retryOptions p = \<lparr>maxRetries = 3, backoffFactor = 2, initialDelay = 1000\<rparr>"
    and "parses (url req)"
    and "transport 0 = Responds r0" and "status r0 = 429"
    and "transport 1 = Responds r1" and "status r1 = 429"
    and "transport 2 = Responds r2" and "ok r2" and "json r2 = Inr d"
    and "data d = Some rows" and "rows \<noteq> []"
  shows "\<exists>tr. extractData n p parses transport req = Some (Inr rows, tr)
             \<and> attempts tr = 3
             \<and> emitted ''rateLimit'' tr = 2
             \<and> emitted ''request:retry'' tr = 2
             \<and> emitted ''extract:complete'' tr = 1
             \<and> filter (\<lambda>a. isFetch a \<or> isSleep a) tr =
                 [Fetch 0, Sleep (1000 * 2 ^ 0), Fetch 1, Sleep (1000 * 2 ^ 1), Fetch 2]"
proof -
  have a0: "attemptOnce n p transport 0 =
     Some (Inr Again, [Throttle, Fetch 0, said n p ''rateLimit'' (RetryCount 0) None,
                       said n p ''request:retry'' (RetryCount 0) None, Sleep (backoff p 0)])"
    using assms by (intro attemptOnce_retry429 [where r = r0]) simp_all
  have a1: "attemptOnce n p transport 1 =
     Some (Inr Again, [Throttle, Fetch 1, said n p ''rateLimit'' (RetryCount 1) None,
                       said n p ''request:retry'' (RetryCount 1) None, Sleep (backoff p 1)])"
    using assms by (intro attemptOnce_retry429 [where r = r1]) simp_all
  have "status r2 \<noteq> 429"
    using assms(9) by (auto simp: ok_def)
  then have a2: "attemptOnce n p transport 2 = Some (Inr (Done r2), [Throttle, Fetch 2])"
    using assms by (intro attemptOnce_done [where r = r2]) simp_all
  have r2: "retryableRequest n p transport 2 = Some (Inr r2, [Throttle, Fetch 2])"
    using a2 by (rule retryableRequest_done)
  have r1: "retryableRequest n p transport 1 =
     Some (Inr r2, [Throttle, Fetch 1, said n p ''rateLimit'' (RetryCount 1) None,
                    said n p ''request:retry'' (RetryCount 1) None, Sleep (backoff p 1),
                    Throttle, Fetch 2])"
    using retryableRequest_again [OF a1] r2 by (simp add: numeral_2_eq_2)
  have r0: "retryableRequest n p transport 0 =
     Some (Inr r2, [Throttle, Fetch 0, said n p ''rateLimit'' (RetryCount 0) None,
                    said n p ''request:retry'' (RetryCount 0) None, Sleep (backoff p 0),
                    Throttle, Fetch 1, said n p ''rateLimit'' (RetryCount 1) None,
                    said n p ''request:retry'' (RetryCount 1) None, Sleep (backoff p 1),
                    Throttle, Fetch 2])"
    using retryableRequest_again [OF a0] r1 by simp
  have "tryExtract n p transport =
     Some (Inr rows, [Throttle, Fetch 0, said n p ''rateLimit'' (RetryCount 0) None,
                    said n p ''request:retry'' (RetryCount 0) None, Sleep (backoff p 0),
                    Throttle, Fetch 1, said n p ''rateLimit'' (RetryCount 1) None,
                    said n p ''request:retry'' (RetryCount 1) None, Sleep (backoff p 1),
                    Throttle, Fetch 2] @ [said n p ''extract:complete'' (Reply d) None])"
    using assms r0 by (intro tryExtract_rows [where r = r2 and d = d]) simp_all
  then have "extractData n p parses transport req =
     Some (Inr rows, said n p ''extract:start'' (Request req) None #
                   [Throttle, Fetch 0, said n p ''rateLimit'' (RetryCount 0) None,
                    said n p ''request:retry'' (RetryCount 0) None, Sleep (backoff p 0),
                    Throttle, Fetch 1, said n p ''rateLimit'' (RetryCount 1) None,
                    said n p ''request:retry'' (RetryCount 1) None, Sleep (backoff p 1),
                    Throttle, Fetch 2] @ [said n p ''extract:complete'' (Reply d) None])"
    using assms(1,3) by (simp add: extractData_rows)
  then show ?thesis
    using assms(2) by (simp add: attempts_def emitted_def said_def backoff_def)
qed

theorem two_429_then_success_witness:
  "\<exists>tr. extractData 0 defaultClient (\<lambda>u. True)
            (\<lambda>k. if k < 2 then Responds tooMany else Responds found) sampleRequest
          = Some (Inr [[(''title'', ''Test Title'')]], tr)
        \<and> attempts tr = 3
        \<and> emitted ''rateLimit'' tr = 2
        \<and> emitted ''request:retry'' tr = 2
        \<and> emitted ''extract:complete'' tr = 1
        \<and> filter (\<lambda>a. isFetch a \<or> isSleep a) tr =
            [Fetch 0, Sleep 1000, Fetch 1, Sleep 2000, Fetch 2]"
  using two_429_then_success [where n = 0 and p = defaultClient and parses = "\<lambda>u. True"
      and req = sampleRequest and transport = "\<lambda>k. if k < 2 then Responds tooMany else Responds found"
      and ?r0.0 = tooMany and ?r1.0 = tooMany and ?r2.0 = found
      and d = "\<lparr>data = Some [[(''title'', ''Test Title'')]], message = None\<rparr>"
      and rows = "[[(''title'', ''Test Title'')]]"] quiet_defaultClient
  by (simp add: defaultClient_def tooMany_def found_def ok_def)

text \<open>
  C5 as stated fails. The claim has every transport that always answers 429 end in the
  rate-limit failure. \<open>handleError\<close> reads the body of the last response before it looks at
  the status: when that body is not JSON, the parser's error is what \<open>extract\<close> wraps and
  raises, after the same four calls under the default policy.
\<close>

theorem rate_limit_body_not_json:
  "\<exists>tr. extractData 0 defaultClient (\<lambda>u. True) (\<lambda>k. Responds tooManyHtml) sampleRequest =
          Some (Inl (Error ''Error''
                  ''Failed to extract data: Unexpected token < in JSON at position 0''), tr)
        \<and> attempts tr = 4
        \<and> emitted ''extract:error'' tr = 1
        \<and> status tooManyHtml = 429
        \<and> Error ''Error'' ''Failed to extract data: Unexpected token < in JSON at position 0'' \<noteq>
            Error ''Error'' ''Failed to extract data: Rate limit exceeded. Please try again later.''"
proof -
  have "\<forall>k::nat. \<exists>r. Responds tooManyHtml = Responds r \<and> status r = 429"
    by (simp add: tooManyHtml_def)
  then show ?thesis
    using extractData_all429 [where n = 0 and p = defaultClient and parses = "\<lambda>u. True"
        and req = sampleRequest and transport = "\<lambda>k. Responds tooManyHtml"] quiet_defaultClient
    by (auto simp: defaultClient_def tooManyHtml_def)
qed

text \<open>
  C5, amended. A quiet client, a URL that parses, any retry policy; the transport answers
  every call with status 429. \<open>extract\<close> calls the transport exactly \<open>maxRetries + 1\<close>
  times (once when \<open>maxRetries\<close> is below 0) and then fails. If the body of the last
  response is JSON, it fails with the error that \<open>handleError\<close> makes of a 429
  (\<open>Rate limit exceeded. Please try again later.\<close>) under the prefix
  \<open>Failed to extract data: \<close>, and \<open>extract:error\<close> is emitted once, as the last action,
  with the unwrapped error. If the body is not JSON, it fails with the parser's failure
  instead, treated as any failure of the \<open>try\<close> block: an \<open>Error\<close> is emitted as
  \<open>extract:error\<close> once and re-raised (wrapped unless its message is
  \<open>Request timed out\<close>), another value becomes \<open>Failed to extract data: Unknown error\<close>.
\<close>

theorem always_429_exhausts_retries:
  assumes "quiet n p" and "parses (url req)"
    and "\<forall>k. \<exists>r. transport k = Responds r \<and> status r = 429"
  shows "\<exists>tr r. transport (nat (maxRetries (retryOptions p))) = Responds r
           \<and> attempts tr = nat (maxRetries (retryOptions p)) + 1
           \<and> (case json r of
                 Inr d \<Rightarrow>
                   extractData n p parses transport req =
                     Some (Inl (Error ''Error''
                       ''Failed to extract data: Rate limit exceeded. Please try again later.''), tr)
                   \<and> emitted ''extract:error'' tr = 1
                   \<and> last tr = said n p ''extract:error'' NoPayload
                        (Some (Error ''Error'' ''Rate limit exceeded. Please try again later.''))
               | Inl (Error nm msg) \<Rightarrow>
                   extractData n p parses transport req =
                     Some (Inl (if msg = ''Request timed out'' then Error nm msg
                                else Error ''Error'' (''Failed to extract data: '' @ msg)), tr)
                   \<and> emitted ''extract:error'' tr = 1
                   \<and> last tr = said n p ''extract:error'' NoPayload (Some (Error nm msg))
               | Inl (Other v) \<Rightarrow>
                   extractData n p parses transport req =
                     Some (Inl (Error ''Error'' ''Failed to extract data: Unknown error''), tr)
                   \<and> emitted ''extract:error'' tr = 0)"
  using assms by (rule extractData_all429)

theorem always_429_exhausts_retries_witness:
  "\<exists>tr. extractData 0 defaultClient (\<lambda>u. True) (\<lambda>k. Responds tooMany) sampleRequest =
                Some (Inl (Error ''Error''
                        ''Failed to extract data: Rate limit exceeded. Please try again later.''), tr)
             \<and> attempts tr = 4
             \<and> emitted ''extract:error'' tr = 1
             \<and> last tr = said 0 defaultClient ''extract:error'' NoPayload
                           (Some (Error ''Error'' ''Rate limit exceeded. Please try again later.''))"
proof -
  have "\<forall>k::nat. \<exists>r. Responds tooMany = Responds r \<and> status r = 429"
    by (simp add: tooMany_def)
  then show ?thesis
    using always_429_exhausts_retries [where n = 0 and p = defaultClient
        and parses = "\<lambda>u. True" and req = sampleRequest
        and transport = "\<lambda>k. Responds tooMany"] quiet_defaultClient
    by (auto simp: defaultClient_def tooMany_def)
qed

lemma attemptOnce_no_extract_error:
  assumes "quiet n p" "attemptOnce n p transport k = Some (x, t)"
  shows "emitted ''extract:error'' t = 0"
proof (cases "fetchWithTimeout (transport k)")
  case (Inr r)
  show ?thesis
  proof (cases "status r = 429 \<and> int k < maxRetries (retryOptions p)")
    case True
    then show ?thesis
      using assms attemptOnce_retry429 [where transport = transport and k = k and r = r and n = n and p = p] Inr
      by (auto simp: emitted_def said_def)
  next
    case False
    then show ?thesis
      using assms attemptOnce_done [where transport = transport and k = k and r = r and n = n and p = p] Inr
      by (auto simp: emitted_def said_def)
  qed
next
  case (Inl e)
  show ?thesis
  proof (cases e)
    case (Error nm msg)
    show ?thesis
    proof (cases "int k < maxRetries (retryOptions p) \<and> isRetryableError (Error nm msg)")
      case True
      then show ?thesis
        using assms attemptOnce_retryError [where transport = transport and k = k and nm = nm and msg = msg and n = n and p = p] Inl Error
        by (auto simp: emitted_def said_def)
    next
      case False
      then show ?thesis
        using assms attemptOnce_failError [where transport = transport and k = k and nm = nm and msg = msg and n = n and p = p] Inl Error
        by (auto simp: emitted_def said_def)
    qed
  next
    case (Other v)
    then show ?thesis
      using assms attemptOnce_failOther [where transport = transport and k = k and v = v and n = n and p = p] Inl
      by (auto simp: emitted_def)
  qed
qed

lemma retryableRequest_no_extract_error:
  "quiet n p \<Longrightarrow> retryableRequest n p transport k = Some (x, t) \<Longrightarrow>
   emitted ''extract:error'' t = 0"
proof (induction n p transport k arbitrary: x t rule: retryableRequest.induct)
  case (1 n p transport retryCount)
  note assms = \<open>quiet n p\<close>
  note prem = \<open>retryableRequest n p transport retryCount = Some (x, t)\<close>
  show ?case
  proof (cases "attemptOnce n p transport retryCount")
    case None
    then show ?thesis
      using prem by (subst (asm) retryableRequest.simps) simp
  next
    case (Some a)
    obtain y t0 where a: "a = (y, t0)" by (cases a)
    have att0: "attemptOnce n p transport retryCount = Some (y, t0)"
      using Some a by simp
    have e0: "emitted ''extract:error'' t0 = 0"
      by (rule attemptOnce_no_extract_error [OF assms att0])
    show ?thesis
    proof (cases y)
      case (Inl e)
      then show ?thesis
        using prem Some a e0 by (simp add: retryableRequest_fail)
    next
      case (Inr s)
      show ?thesis
      proof (cases s)
        case (Done r)
        then show ?thesis
          using prem Some a e0 Inr by (simp add: retryableRequest_done)
      next
        case Again
        have att: "attemptOnce n p transport retryCount = Some (Inr Again, t0)"
          using Some a Inr Again by simp
        obtain t1 where t1: "retryableRequest n p transport (retryCount + 1) = Some (x, t1)"
          and t: "t = t0 @ t1"
          using prem retryableRequest_again [OF att]
          by (auto split: option.splits)
        have "emitted ''extract:error'' t1 = 0"
          using "1.IH" [OF att refl assms t1] .
        then show ?thesis
          using e0 t by (simp add: emitted_def)
      qed
    qed
  qed
qed

lemma tryExtract_no_extract_error:
  assumes "quiet n p" "tryExtract n p transport = Some (x, t)"
  shows "emitted ''extract:error'' t = 0"
proof (cases "retryableRequest n p transport 0")
  case None
  then show ?thesis using assms(2) by (simp add: tryExtract_def)
next
  case (Some a)
  obtain y t0 where a: "a = (y, t0)" by (cases a)
  have rr: "retryableRequest n p transport 0 = Some (y, t0)"
    using Some a by simp
  have e0: "emitted ''extract:error'' t0 = 0"
    by (rule retryableRequest_no_extract_error [OF assms(1) rr])
  show ?thesis
  proof (cases y)
    case (Inl e)
    then show ?thesis
      using assms(2) rr e0 by (simp add: tryExtract_fail)
  next
    case (Inr r)
    note r = rr [unfolded Inr]
    show ?thesis
    proof (cases "ok r")
      case False
      obtain e where "(handleError r :: unit comp) = Some (Inl e, [])"
        using handleError_throws by blast
      then show ?thesis
        using assms(2) e0 tryExtract_notOk [OF r False] by simp
    next
      case True
      show ?thesis
      proof (cases "json r")
        case (Inl e)
        then show ?thesis
          using assms(2) e0 tryExtract_unparsed [OF r True] by simp
      next
        case (Inr d)
        show ?thesis
        proof (cases "data d = None \<or> data d = Some []")
          case True
          then show ?thesis
            using assms(2) e0 tryExtract_noData [OF r \<open>ok r\<close> Inr] by simp
        next
          case False
          then obtain rows where "data d = Some rows" "rows \<noteq> []" by auto
          then show ?thesis
            using assms(2) e0 tryExtract_rows [OF assms(1) r \<open>ok r\<close> Inr]
            by (auto simp: emitted_def said_def)
        qed
      qed
    qed
  qed
qed

text \<open>
  C7 as stated fails. The claim has every failure other than a \<open>Timeout\<close> re-raised under
  the prefix. \<open>extract\<close> tells a timeout by the message \<open>Request timed out\<close> alone: when
  the server answers the only call with status 200, no data and that very message, no
  deadline has elapsed, the failure is the one for missing data, and it is re-raised as it
  is, without the prefix.
\<close>

theorem no_data_reraised_unwrapped:
  "\<exists>tr. extractData 0 defaultClient (\<lambda>u. True) (\<lambda>k. Responds emptyTimedOut) sampleRequest =
          Some (Inl (Error ''Error'' ''Request timed out''), tr)
        \<and> attempts tr = 1
        \<and> fetchWithTimeout (Responds emptyTimedOut) = Inr emptyTimedOut
        \<and> Error ''Error'' ''Request timed out'' \<noteq> timeoutError
        \<and> Error ''Error'' ''Request timed out'' \<noteq>
            Error ''Error'' (''Failed to extract data: '' @ ''Request timed out'')"
proof -
  let ?tr = "\<lambda>k::nat. Responds emptyTimedOut"
  have "attemptOnce 0 defaultClient ?tr 0 = Some (Inr (Done emptyTimedOut), [Throttle, Fetch 0])"
    by (intro attemptOnce_done [where r = emptyTimedOut]) (simp_all add: emptyTimedOut_def)
  then have rr: "retryableRequest 0 defaultClient ?tr 0 = Some (Inr emptyTimedOut, [Throttle, Fetch 0])"
    by (rule retryableRequest_done)
  have "tryExtract 0 defaultClient ?tr =
          Some (Inl (Error ''Error''
                  (orElse (message \<lparr>data = Some [], message = Some ''Request timed out''\<rparr>)
                     noDataMessage)), [Throttle, Fetch 0])"
    by (rule tryExtract_noData [OF rr]) (simp_all add: emptyTimedOut_def ok_def)
  then have "tryExtract 0 defaultClient ?tr =
          Some (Inl (Error ''Error'' ''Request timed out''), [Throttle, Fetch 0])"
    by (simp add: orElse_def)
  then have "extractData 0 defaultClient (\<lambda>u. True) ?tr sampleRequest =
          Some (Inl (Error ''Error'' ''Request timed out''),
                said 0 defaultClient ''extract:start'' (Request sampleRequest) None #
                [Throttle, Fetch 0] @
                [said 0 defaultClient ''extract:error'' NoPayload
                   (Some (Error ''Error'' ''Request timed out''))])"
    using quiet_defaultClient by (simp add: extractData_failError)
  then show ?thesis
    by (simp add: attempts_def said_def timeoutError_def)
qed

text \<open>
  C7, amended. On a quiet client and with a URL that parses, every failure of the \<open>try\<close>
  block of \<open>extract\<close> that is an \<open>Error\<close> is emitted as \<open>extract:error\<close> exactly once, as
  the last action, and re-raised: as it is when its message is exactly
  \<open>Request timed out\<close>, otherwise as a new \<open>Error\<close> whose message is
  \<open>Failed to extract data: \<close> followed by the original message. A thrown value that is
  not an \<open>Error\<close> is replaced by \<open>Failed to extract data: Unknown error\<close> and no
  \<open>extract:error\<close> is emitted. The \<open>try\<close> block itself never emits \<open>extract:error\<close>.
\<close>

theorem extract_failure_reraised:
  assumes "quiet n p" and "parses (url req)" and "tryExtract n p transport = Some (Inl e, t)"
  shows "\<exists>tr. extractData n p parses transport req =
                (case e of
                   Error nm msg \<Rightarrow>
                     Some (Inl (if msg = ''Request timed out'' then e
                                else Error ''Error'' (''Failed to extract data: '' @ msg)), tr)
                 | Other v \<Rightarrow>
                     Some (Inl (Error ''Error'' ''Failed to extract data: Unknown error''), tr))
             \<and> tr = (case e of
                       Error nm msg \<Rightarrow>
                         said n p ''extract:start'' (Request req) None # t @
                         [said n p ''extract:error'' NoPayload (Some e)]
                     | Other v \<Rightarrow> said n p ''extract:start'' (Request req) None # t)
             \<and> emitted ''extract:error'' tr = (case e of Error nm msg \<Rightarrow> 1 | Other v \<Rightarrow> 0)
             \<and> emitted ''extract:error'' t = 0"
proof -
  have "emitted ''extract:error'' t = 0"
    using assms(1,3) by (rule tryExtract_no_extract_error)
  then show ?thesis
    using assms
    by (cases e) (simp_all add: extractData_failError extractData_failOther emitted_def said_def)
qed

theorem extract_failure_reraised_witness:
  "extractData 0 defaultClient (\<lambda>u. True) (\<lambda>k. TimerFires) sampleRequest =
     Some (Inl timeoutError,
           [said 0 defaultClient ''extract:start'' (Request sampleRequest) None,
            Throttle, Fetch 0,
            said 0 defaultClient ''request:error'' NoPayload (Some timeoutError),
            said 0 defaultClient ''extract:error'' NoPayload (Some timeoutError)])"
proof -
  have "retryableRequest 0 defaultClient (\<lambda>k. TimerFires) 0 =
          Some (Inl timeoutError,
                [Throttle, Fetch 0,
                 said 0 defaultClient ''request:error'' NoPayload (Some timeoutError)])"
    using quiet_defaultClient by (rule retryableRequest_timeout) (simp add: abortError_def)
  then have t: "tryExtract 0 defaultClient (\<lambda>k. TimerFires) =
          Some (Inl timeoutError,
                [Throttle, Fetch 0,
                 said 0 defaultClient ''request:error'' NoPayload (Some timeoutError)])"
    by (rule tryExtract_fail)
  show "extractData 0 defaultClient (\<lambda>u. True) (\<lambda>k. TimerFires) sampleRequest =
     Some (Inl timeoutError,
           [said 0 defaultClient ''extract:start'' (Request sampleRequest) None,
            Throttle, Fetch 0,
            said 0 defaultClient ''request:error'' NoPayload (Some timeoutError),
            said 0 defaultClient ''extract:error'' NoPayload (Some timeoutError)])"
    using extract_failure_reraised [OF quiet_defaultClient _ t, of "\<lambda>u. True" sampleRequest]
    by (simp add: timeoutError_def)
qed

section \<open>The event bus\<close>

subsection \<open>Rounds\<close>

lemma heads_tails_mset:
  "mset (concat [h. (h # t) \<leftarrow> xss]) + mset (concat (concat [t. (h # t) \<leftarrow> xss]))
   = mset (concat (concat xss))"
  by (induction xss) (auto split: list.splits)

lemma mset_rounds: "mset (concat (rounds xss)) = mset (concat (concat xss))"
  unfolding rounds_def
proof (induction xss rule: transpose.induct)
  case 1
  then show ?case by simp
next
  case (2 xss)
  then show ?case by simp
next
  case (3 x xs xss)
  have "mset (concat (map concat (transpose ((x # xs) # xss)))) =
        mset x + mset (concat [h. (h # t) \<leftarrow> xss])
        + mset (concat (map concat (transpose (xs # [t. (h # t) \<leftarrow> xss]))))"
    by simp
  also have "\<dots> = mset x + mset (concat [h. (h # t) \<leftarrow> xss])
        + (mset (concat xs) + mset (concat (concat [t. (h # t) \<leftarrow> xss])))"
    using 3 by simp
  also have "\<dots> = mset x + mset (concat xs) + mset (concat (concat xss))"
    using heads_tails_mset [of xss] by (simp add: ac_simps)
  finally show ?case by simp
qed

lemma set_rounds: "set (concat (rounds xss)) = set (concat (concat xss))"
  using mset_rounds [of xss] by (metis set_mset_mset)



lemma segments_nonempty [simp]: "segments p \<noteq> []"
  by (induction p) (auto split: list.splits)



lemma concat_resume: "concat (resume ss xs ts) = concat ss @ xs @ concat ts"
  by (induction ss xs ts rule: resume.induct) simp_all

lemma those_map_the:
  "\<forall>x\<in>set xs. f x \<noteq> None \<Longrightarrow> those (map f xs) = Some (map (\<lambda>x. the (f x)) xs)"
  by (induction xs) auto

lemma earliest_member:
  "earliest rs = Some (k, e') \<Longrightarrow> \<exists>ss'. (ss', Some e') \<in> set rs"
  by (induction rs arbitrary: k e' rule: earliest.induct)
     (auto split: option.splits if_splits)

lemma earliest_fails:
  "(ss, Some e) \<in> set rs \<Longrightarrow> earliest rs \<noteq> None"
  by (induction rs rule: earliest.induct) (auto split: option.splits)

lemma earliest_Some:
  assumes "(ss, Some e) \<in> set rs"
  shows "\<exists>k e'. earliest rs = Some (k, e') \<and> (\<exists>ss'. (ss', Some e') \<in> set rs)"
proof -
  obtain k e' where "earliest rs = Some (k, e')"
    using earliest_fails [OF assms] by (cases "earliest rs") auto
  then show ?thesis using earliest_member by blast
qed

lemma handleEvent_strict:
  "\<not> catchErrors opts \<Longrightarrow>
   handleEvent reemit opts ev h =
     Some (map (map (Did (hid h))) (segments (fn h ev)), outcome (fn h ev))"
  by (cases "outcome (fn h ev)") (simp_all add: handleEvent_def)

lemma handleEvent_caught:
  assumes "catchErrors opts" and "outcome (fn h ev) = Some x"
    and "reemit (handlerError x) = Some (ts, None)"
  shows "handleEvent reemit opts ev h =
           Some (resume (map (map (Did (hid h))) (segments (fn h ev)))
                   [Reemit (handlerError x)] ts, None)"
  using assms by (simp add: handleEvent_def)

lemma deliver_strict_raises:
  assumes hs: "eventHandlers p (evType ev) = Some hs" and h: "h \<in> set hs"
    and fails: "outcome (fn h ev) = Some e"
    and sync: "\<not> async (optionsFor p (evType ev))"
    and strict: "\<not> catchErrors (optionsFor p (evType ev))"
  shows "\<exists>ss e'. deliver reemit p ev = Some (ss, Some e')
                \<and> (\<exists>h'\<in>set hs. outcome (fn h' ev) = Some e')"
proof -
  define opts where "opts = optionsFor p (evType ev)"
  define g where "g = (\<lambda>h::handler. (map (map (Did (hid h))) (segments (fn h ev)), outcome (fn h ev)))"
  have ne: "hs \<noteq> []" using h by auto
  have "map (handleEvent reemit opts ev) hs = map (\<lambda>h. Some (g h)) hs"
    using strict by (simp add: handleEvent_strict g_def opts_def)
  then have th: "those (map (handleEvent reemit opts ev) hs) = Some (map g hs)"
    by (simp only: those_map_Some)
  have "(fst (g h), Some e) \<in> set (map g hs)"
    using h fails by (force simp: g_def)
  then obtain k e' ss' where k: "earliest (map g hs) = Some (k, e')"
      and mem: "(ss', Some e') \<in> set (map g hs)"
    using earliest_Some by blast
  have "\<exists>h'\<in>set hs. outcome (fn h' ev) = Some e'"
    using mem by (auto simp: g_def)
  moreover have "deliver reemit p ev = Some (take k (rounds (map fst (map g hs))), Some e')"
    using hs ne th sync k by (simp add: deliver_def opts_def [symmetric] awaitAll_def)
  ultimately show ?thesis by blast
qed

lemma deliver_caught_returns:
  assumes hs: "eventHandlers p (evType ev) = Some hs" and h: "h \<in> set hs"
    and fails: "outcome (fn h ev) = Some e"
    and sync: "\<not> async (optionsFor p (evType ev))"
    and caught: "catchErrors (optionsFor p (evType ev))"
    and re: "\<forall>x. \<exists>ts. reemit (handlerError x) = Some (ts, None)"
  shows "\<exists>ss. deliver reemit p ev = Some (ss, None) \<and> Reemit (handlerError e) \<in> set (concat ss)"
proof -
  define opts where "opts = optionsFor p (evType ev)"
  define g where "g = (\<lambda>h. the (handleEvent reemit opts ev h))"
  have ne: "hs \<noteq> []" using h by auto
  have each: "\<exists>ss. handleEvent reemit opts ev h' = Some (ss, None)" for h'
  proof (cases "outcome (fn h' ev)")
    case None
    then show ?thesis by (simp add: handleEvent_returns)
  next
    case (Some x)
    obtain ts where "reemit (handlerError x) = Some (ts, None)" using re by blast
    then show ?thesis
      using handleEvent_caught [of opts h' ev x reemit ts] caught Some by (simp add: opts_def)
  qed
  then have "\<forall>h'\<in>set hs. handleEvent reemit opts ev h' \<noteq> None" by fastforce
  then have th: "those (map (handleEvent reemit opts ev) hs) = Some (map g hs)"
    unfolding g_def by (rule those_map_the)
  have "snd (g h') = None" for h'
    using each [of h'] by (auto simp: g_def)
  then have "\<forall>r\<in>set (map g hs). snd r = None" by simp
  then have "earliest (map g hs) = None" by (rule earliest_None)
  then have run: "deliver reemit p ev = Some (rounds (map fst (map g hs)), None)"
    using hs ne th sync by (simp add: deliver_def opts_def [symmetric] awaitAll_def)
  obtain ts where ts: "reemit (handlerError e) = Some (ts, None)" using re by blast
  have "g h = (resume (map (map (Did (hid h))) (segments (fn h ev))) [Reemit (handlerError e)] ts, None)"
    using handleEvent_caught [of opts h ev e reemit ts] caught fails ts
    by (simp add: g_def opts_def)
  then have "Reemit (handlerError e) \<in> set (concat (fst (g h)))"
    by (simp add: concat_resume)
  then have "Reemit (handlerError e) \<in> set (concat (concat (map fst (map g hs))))"
    using h by auto
  then have "Reemit (handlerError e) \<in> set (concat (rounds (map fst (map g hs))))"
    by (simp only: set_rounds)
  then show ?thesis using run by blast
qed

lemma extractData_start_raises:
  assumes "emitRun n p \<lparr>evType = ''extract:start'', evData = Request req, evError = None,
                        evRetryCount = None\<rparr> = Some (ss, Some x)"
  shows "extractData n p parses transport req =
           Some (Inl x, [Emit \<lparr>evType = ''extract:start'', evData = Request req, evError = None,
                              evRetryCount = None\<rparr> (concat ss)])"
  using assms by (simp add: extractData_def emit_def)

lemma resume_nonempty [simp]: "resume ss xs ts \<noteq> []"
  by (induction ss xs ts rule: resume.induct) simp_all









subsection \<open>Delivery that awaits the handlers\<close>




subsection \<open>Handlers that fail\<close>

lemma emit_strict_rateLimit:
  "emit 0 strict ''rateLimit'' d e r =
     Some (Inl (Error ''Error'' ''network down''),
           [Emit \<lparr>evType = ''rateLimit'', evData = d, evError = e, evRetryCount = r\<rparr> []])"
  by (simp add: emit_def deliver_def strict_def on_def defaultClient_def add_def grumbler_def
        strictOptions_def optionsFor_def handleEvent_def awaitAll_def rounds_def)

lemma emit_strict_other:
  "t \<noteq> ''rateLimit'' \<Longrightarrow>
   emit 0 strict t d e r =
     Some (Inr (), [Emit \<lparr>evType = t, evData = d, evError = e, evRetryCount = r\<rparr> []])"
  by (simp add: emit_def deliver_def strict_def on_def defaultClient_def)

lemma strict_policy:
  "retryOptions strict = \<lparr>maxRetries = 3, backoffFactor = 2, initialDelay = 1000\<rparr>"
  by (simp add: strict_def on_def defaultClient_def)

text \<open>
  C9 as stated fails in its last part. With \<open>catchErrors\<close> false the handler's failure does
  leave \<open>emit\<close>, but not therefore the operation that emitted: \<open>retryableRequest\<close> emits
  \<open>rateLimit\<close> inside its \<open>try\<close> block. Here the listener of \<open>rateLimit\<close> throws an error
  whose message contains \<open>network\<close>; the \<open>catch\<close> of \<open>retryableRequest\<close> takes it for a
  transport failure that can be retried, the second call succeeds, and \<open>extract\<close> returns
  the data.
\<close>

theorem handler_failure_swallowed_by_retry:
  "emit 0 strict ''rateLimit'' (RetryCount 0) None None =
     Some (Inl (Error ''Error'' ''network down''), [Emit limitEvent []])
   \<and> catchErrors (optionsFor strict ''rateLimit'') = False
   \<and> (\<exists>tr. extractData 0 strict (\<lambda>u. True) onceLimited sampleRequest
            = Some (Inr [[(''title'', ''Test Title'')]], tr)
          \<and> emitted ''rateLimit'' tr = 1 \<and> attempts tr = 2)"
proof -
  let ?tr = "onceLimited"
  have a0: "attemptOnce 0 strict ?tr 0 =
     Some (Inr Again,
           [Throttle, Fetch 0, Emit limitEvent [],
            Emit \<lparr>evType = ''request:error'', evData = NoPayload,
                  evError = Some (Error ''Error'' ''network down''), evRetryCount = None\<rparr> [],
            Emit \<lparr>evType = ''request:retry'', evData = RetryCount 0, evError = None,
                  evRetryCount = None\<rparr> [],
            Sleep 1000])"
    by (simp add: attemptOnce_def requestFn_def act_def ret_def throw_def tooMany_def
          onceLimited_def emit_strict_rateLimit emit_strict_other limitEvent_def backoff_def strict_policy)
  have a1: "attemptOnce 0 strict ?tr 1 = Some (Inr (Done found), [Throttle, Fetch 1])"
    by (intro attemptOnce_done [where r = found]) (simp_all add: found_def onceLimited_def)
  have r1: "retryableRequest 0 strict ?tr 1 = Some (Inr found, [Throttle, Fetch 1])"
    using a1 by (rule retryableRequest_done)
  have r0: "retryableRequest 0 strict ?tr 0 =
     Some (Inr found,
           [Throttle, Fetch 0, Emit limitEvent [],
            Emit \<lparr>evType = ''request:error'', evData = NoPayload,
                  evError = Some (Error ''Error'' ''network down''), evRetryCount = None\<rparr> [],
            Emit \<lparr>evType = ''request:retry'', evData = RetryCount 0, evError = None,
                  evRetryCount = None\<rparr> [],
            Sleep 1000, Throttle, Fetch 1])"
    using retryableRequest_again [OF a0] r1 by simp
  have "\<exists>t. tryExtract 0 strict ?tr = Some (Inr [[(''title'', ''Test Title'')]], t)
          \<and> emitted ''rateLimit'' t = 1 \<and> attempts t = 2"
    by (simp add: tryExtract_def r0 emit_strict_other ret_def
          found_def ok_def emitted_def attempts_def limitEvent_def)
  then have "\<exists>tr. extractData 0 strict (\<lambda>u. True) ?tr sampleRequest
            = Some (Inr [[(''title'', ''Test Title'')]], tr)
          \<and> emitted ''rateLimit'' tr = 1 \<and> attempts tr = 2"
    by (auto simp: extractData_def emit_strict_other validateUrl_def ret_def
          emitted_def attempts_def)
  moreover have "catchErrors (optionsFor strict ''rateLimit'') = False"
    by (simp add: strict_def on_def optionsFor_def strictOptions_def)
  ultimately show ?thesis
    by (simp add: emit_strict_rateLimit limitEvent_def)
qed

text \<open>
  C9, amended. Let a handler of an awaited event type (\<open>async = false\<close>) fail with \<open>e\<close>
  during an emission. If \<open>catchErrors\<close> is true for the type and the emissions of
  \<open>handler:error\<close> return normally, then \<open>emit\<close> returns normally and has emitted
  \<open>handler:error\<close> with \<open>e\<close>. If \<open>catchErrors\<close> is false, \<open>emit\<close> throws the failure of one
  of the type's handlers, which is \<open>e\<close> when no handler fails otherwise; when the emission
  is the \<open>extract:start\<close> of \<open>extract\<close>, \<open>extract\<close> throws the same value and does nothing
  else.
\<close>

theorem handler_failure_caught_or_raised:
  assumes "eventHandlers p (evType ev) = Some hs" and "h \<in> set hs"
    and "outcome (fn h ev) = Some e"
    and "\<not> async (optionsFor p (evType ev))"
  shows "(catchErrors (optionsFor p (evType ev))
            \<and> (\<forall>x. \<exists>ts. emitRun n p (handlerError x) = Some (ts, None)) \<longrightarrow>
          (\<exists>ss. emitRun (Suc n) p ev = Some (ss, None)
               \<and> Reemit (handlerError e) \<in> set (concat ss)))
       \<and> (\<not> catchErrors (optionsFor p (evType ev)) \<longrightarrow>
          (\<exists>ss e'. emitRun n p ev = Some (ss, Some e')
                 \<and> (\<exists>h'\<in>set hs. outcome (fn h' ev) = Some e')
                 \<and> ((\<forall>h'\<in>set hs. outcome (fn h' ev) = None \<or> outcome (fn h' ev) = Some e)
                      \<longrightarrow> e' = e)
                 \<and> (evType ev = ''extract:start'' \<and> evError ev = None
                      \<and> evRetryCount ev = None \<and> evData ev = Request req \<longrightarrow>
                    extractData n p parses transport req =
                      Some (Inl e', [Emit ev (concat ss)]))))"
proof (intro conjI impI)
  assume "catchErrors (optionsFor p (evType ev))
            \<and> (\<forall>x. \<exists>ts. emitRun n p (handlerError x) = Some (ts, None))"
  then show "\<exists>ss. emitRun (Suc n) p ev = Some (ss, None)
               \<and> Reemit (handlerError e) \<in> set (concat ss)"
    using deliver_caught_returns [OF assms(1-4), of "emitRun n p"] by simp
next
  assume strict: "\<not> catchErrors (optionsFor p (evType ev))"
  obtain reemit where r: "emitRun n p ev = deliver reemit p ev"
    using emitRun_deliver by blast
  obtain ss e' where run: "emitRun n p ev = Some (ss, Some e')"
      and who: "\<exists>h'\<in>set hs. outcome (fn h' ev) = Some e'"
    using deliver_strict_raises [OF assms(1-4) strict, of reemit] r by auto
  have "extractData n p parses transport req = Some (Inl e', [Emit ev (concat ss)])"
    if "evType ev = ''extract:start'' \<and> evError ev = None
          \<and> evRetryCount ev = None \<and> evData ev = Request req"
  proof -
    have "ev = \<lparr>evType = ''extract:start'', evData = Request req, evError = None,
                evRetryCount = None\<rparr>"
      using that by (cases ev) simp
    then show ?thesis
      using run extractData_start_raises [of n p req ss e' parses transport] by simp
  qed
  moreover have "e' = e"
    if "\<forall>h'\<in>set hs. outcome (fn h' ev) = None \<or> outcome (fn h' ev) = Some e"
    using that who by auto
  ultimately show "\<exists>ss e'. emitRun n p ev = Some (ss, Some e')
                 \<and> (\<exists>h'\<in>set hs. outcome (fn h' ev) = Some e')
                 \<and> ((\<forall>h'\<in>set hs. outcome (fn h' ev) = None \<or> outcome (fn h' ev) = Some e)
                      \<longrightarrow> e' = e)
                 \<and> (evType ev = ''extract:start'' \<and> evError ev = None
                      \<and> evRetryCount ev = None \<and> evData ev = Request req \<longrightarrow>
                    extractData n p parses transport req =
                      Some (Inl e', [Emit ev (concat ss)]))"
    using run who by blast
qed

theorem handler_failure_caught_or_raised_witness:
  "(\<exists>ss. emitRun 1 (on defaultClient ''rateLimit'' grumbler noOptions) limitEvent = Some (ss, None)
        \<and> Reemit (handlerError (Error ''Error'' ''network down'')) \<in> set (concat ss))
   \<and> (\<exists>ss. emitRun 0 strict limitEvent = Some (ss, Some (Error ''Error'' ''network down'')))"
proof -
  let ?p = "on defaultClient ''rateLimit'' grumbler noOptions"
  let ?e = "Error ''Error'' ''network down''"
  have t: "evType limitEvent = ''rateLimit''" by (simp add: limitEvent_def)
  have 1: "eventHandlers ?p (evType limitEvent) = Some [grumbler]"
    by (simp add: t on_def defaultClient_def add_def)
  have 2: "grumbler \<in> set [grumbler]" by simp
  have 3: "outcome (fn grumbler limitEvent) = Some ?e" by (simp add: grumbler_def)
  have 4: "\<not> async (optionsFor ?p (evType limitEvent))"
    by (simp add: t on_def optionsFor_def noOptions_def)
  have 5: "catchErrors (optionsFor ?p (evType limitEvent))"
    by (simp add: t on_def optionsFor_def noOptions_def)
  have 6: "\<forall>x. \<exists>ts. emitRun 0 ?p (handlerError x) = Some (ts, None)"
    by (simp add: deliver_def on_def defaultClient_def handlerError_def)
  have first: "\<exists>ss. emitRun 1 ?p limitEvent = Some (ss, None) \<and> Reemit (handlerError ?e) \<in> set (concat ss)"
    using handler_failure_caught_or_raised [OF 1 2 3 4, of 0] 5 6 by simp
  have s1: "eventHandlers strict (evType limitEvent) = Some [grumbler]"
    by (simp add: t strict_def on_def defaultClient_def add_def)
  have s4: "\<not> async (optionsFor strict (evType limitEvent))"
    by (simp add: t strict_def on_def optionsFor_def strictOptions_def)
  have s5: "\<not> catchErrors (optionsFor strict (evType limitEvent))"
    by (simp add: t strict_def on_def optionsFor_def strictOptions_def)
  have second: "\<exists>ss. emitRun 0 strict limitEvent = Some (ss, Some ?e)"
    using handler_failure_caught_or_raised [OF s1 2 3 s4, where n = 0 and req = sampleRequest
        and parses = "\<lambda>u. True" and transport = onceLimited] s5 3
    by auto
  show ?thesis using first second by blast
qed

subsection \<open>Options are kept per event type\<close>

lemma strict_then_default:
  "(\<exists>ss. emitRun 1 strict limitEvent = Some (ss, Some (Error ''Error'' ''network down'')))
   \<and> (\<exists>ss. emitRun 1 (on strict ''rateLimit'' fast noOptions) limitEvent = Some (ss, None)
          \<and> concat ss = [Reemit (handlerError (Error ''Error'' ''network down'')), Did 2 ''b1''])"
  by (simp add: deliver_def strict_def on_def defaultClient_def add_def grumbler_def fast_def
        strictOptions_def noOptions_def limitEvent_def optionsFor_def handleEvent_def
        awaitAll_def rounds_def handlerError_def)

text \<open>
  C10. \<open>on\<close> stores the options it is given, with the defaults \<open>async = false\<close> and
  \<open>catchErrors = true\<close> filled in, as the options of the event type, in place of what was
  there. After a second \<open>on\<close> for the same type nothing is left of the options of the
  first: the client, and so every delivery, is the same whatever they were; the handler
  registered first is still registered, and the options under which the type is delivered
  are those of the second call. So \<open>grumbler\<close>, registered on \<open>rateLimit\<close> with
  \<open>catchErrors: false\<close>, makes \<open>emit\<close> throw; once \<open>fast\<close> is registered on the same
  type with no options, \<open>emit\<close> returns normally and the failure of \<open>grumbler\<close> is emitted
  as \<open>handler:error\<close>.
\<close>

theorem on_overwrites_options:
  "eventOptions (on p t h opts) t =
     Some \<lparr>async = (case asyncArg opts of None \<Rightarrow> False | Some b \<Rightarrow> b),
           catchErrors = (case catchErrorsArg opts of None \<Rightarrow> True | Some b \<Rightarrow> b)\<rparr>
   \<and> on (on p t h1 o1) t h2 o2 = on (on p t h1 o1') t h2 o2
   \<and> emitRun n (on (on p t h1 o1) t h2 o2) ev = emitRun n (on (on p t h1 o1') t h2 o2) ev
   \<and> eventHandlers (on (on p t h1 o1) t h2 o2) t =
       Some (add h2 (add h1 (case eventHandlers p t of None \<Rightarrow> [] | Some hs \<Rightarrow> hs)))
   \<and> hid h1 \<in> set (map hid (add h2 (add h1 (case eventHandlers p t of None \<Rightarrow> [] | Some hs \<Rightarrow> hs))))
   \<and> optionsFor (on (on p t h1 o1) t h2 o2) t = optionsFor (on q t h2 o2) t
   \<and> (\<exists>ss. emitRun 1 (on defaultClient ''rateLimit'' grumbler strictOptions) limitEvent =
              Some (ss, Some (Error ''Error'' ''network down'')))
   \<and> (\<exists>ss. emitRun 1 (on (on defaultClient ''rateLimit'' grumbler strictOptions)
                          ''rateLimit'' fast noOptions) limitEvent = Some (ss, None)
          \<and> concat ss = [Reemit (handlerError (Error ''Error'' ''network down'')), Did 2 ''b1''])"
proof -
  have same: "on (on p t h1 o1) t h2 o2 = on (on p t h1 o1') t h2 o2"
    by (simp add: on_def)
  have "hid h1 \<in> set (map hid (add h2 (add h1 hs)))" for hs
    by (auto simp: add_def)
  then have gen: "eventOptions (on p t h opts) t =
     Some \<lparr>async = (case asyncArg opts of None \<Rightarrow> False | Some b \<Rightarrow> b),
           catchErrors = (case catchErrorsArg opts of None \<Rightarrow> True | Some b \<Rightarrow> b)\<rparr>
   \<and> on (on p t h1 o1) t h2 o2 = on (on p t h1 o1') t h2 o2
   \<and> emitRun n (on (on p t h1 o1) t h2 o2) ev = emitRun n (on (on p t h1 o1') t h2 o2) ev
   \<and> eventHandlers (on (on p t h1 o1) t h2 o2) t =
       Some (add h2 (add h1 (case eventHandlers p t of None \<Rightarrow> [] | Some hs \<Rightarrow> hs)))
   \<and> hid h1 \<in> set (map hid (add h2 (add h1 (case eventHandlers p t of None \<Rightarrow> [] | Some hs \<Rightarrow> hs))))
   \<and> optionsFor (on (on p t h1 o1) t h2 o2) t = optionsFor (on q t h2 o2) t"
    using same by (simp add: on_def optionsFor_def)
  show ?thesis
    using gen strict_then_default [unfolded strict_def]
    by (elim conjE) (intro conjI, assumption+)
qed

end
